theory Spec2Isabelle
  imports Main "HOL-Library.Word"
begin

section \<open>Data model of src/update.c\<close>

text \<open>
  The C type \<^verbatim>\<open>unsigned int\<close> is a 32-bit word.  The enumerations of
  wicked/constants.h are datatypes.  For the address configuration mode only the
  two enumerators with a designated initialiser in \<^verbatim>\<open>addrconf_weight\<close> are told
  apart: \<open>NI_ADDRCONF_OTHER\<close> is any other enumerator below \<^verbatim>\<open>__NI_ADDRCONF_MAX\<close>
  (its table entry is the implicit 0) and \<open>NI_ADDRCONF_INVALID\<close> is a value that is
  not below \<^verbatim>\<open>__NI_ADDRCONF_MAX\<close>.  For the update kind, \<open>NI_ADDRCONF_UPDATE_OTHER\<close>
  is any slot of the updater array for which \<^verbatim>\<open>ni_updater_name\<close> has no name.
\<close>

type_synonym uint = "32 word"

datatype ni_addrconf_mode =
  NI_ADDRCONF_DHCP | NI_ADDRCONF_IBFT | NI_ADDRCONF_OTHER | NI_ADDRCONF_INVALID

datatype address_family = AF_INET | AF_INET6 | AF_UNSPEC

datatype ni_addrconf_update =
  NI_ADDRCONF_UPDATE_HOSTNAME | NI_ADDRCONF_UPDATE_RESOLVER | NI_ADDRCONF_UPDATE_OTHER

text \<open>
  A lease, as far as update.c reads it.  The field \<open>l_update\<close> is the update
  bitmask, held as the set of kinds whose bit is set; a NULL \<^verbatim>\<open>hostname\<close> or
  \<^verbatim>\<open>resolver\<close> pointer is \<open>None\<close>.
\<close>

record ni_addrconf_lease =
  l_type :: ni_addrconf_mode
  l_family :: address_family
  l_seqno :: uint
  l_update :: "ni_addrconf_update set"
  l_hostname :: "string option"
  l_resolver :: "string list option"

text \<open>
  \<^verbatim>\<open>struct ni_updater_source\<close>.  The \<^verbatim>\<open>next\<close> pointer is the tail of the HOL list
  that holds the Sources of an updater; the lease pointer is \<open>None\<close> when NULL.
\<close>

record ni_updater_source =
  s_seqno :: uint
  s_weight :: uint
  s_lease :: "ni_addrconf_lease option"

text \<open>A script handle (\<^verbatim>\<open>ni_process_t *\<close>) is identified by its command.\<close>

type_synonym ni_process = string

record ni_updater =
  sources :: "ni_updater_source list"
  u_type :: ni_addrconf_update
  u_seqno :: uint
  have_backup :: bool
  enabled :: bool
  proc_backup :: "ni_process option"
  proc_restore :: "ni_process option"
  proc_install :: "ni_process option"

section \<open>Registration and arbitration\<close>

text \<open>The static table \<^verbatim>\<open>addrconf_weight\<close> of \<^verbatim>\<open>ni_objectmodel_updater_add_source\<close>.\<close>

fun addrconf_weight :: "ni_addrconf_mode \<Rightarrow> uint" where
  "addrconf_weight NI_ADDRCONF_DHCP = 5"
| "addrconf_weight NI_ADDRCONF_IBFT = 10"
| "addrconf_weight _ = 0"

text \<open>
  The node that \<^verbatim>\<open>ni_objectmodel_updater_add_source\<close> allocates: \<^verbatim>\<open>calloc\<close>
  zeroes it, the weight is assigned only under the range check, then
  the address family adds one.
\<close>

definition new_source :: "ni_addrconf_lease \<Rightarrow> ni_updater_source" where
  "new_source lease =
     (let w0 = (if l_type lease \<noteq> NI_ADDRCONF_INVALID
                then 10 * addrconf_weight (l_type lease) else 0)
      in \<lparr> s_seqno = l_seqno lease,
           s_weight = w0 + (if l_family lease = AF_INET then 1 else 0),
           s_lease = Some lease \<rparr>)"

text \<open>
  \<^verbatim>\<open>ni_objectmodel_updater_add_source\<close> on the Source list of one kind: the first
  node with the lease's sequence number has its lease pointer refreshed, otherwise
  a new node is linked at the end.
\<close>

fun add_source :: "ni_addrconf_lease \<Rightarrow> ni_updater_source list \<Rightarrow> ni_updater_source list" where
  "add_source lease [] = [new_source lease]"
| "add_source lease (up # rest) =
     (if s_seqno up = l_seqno lease then up\<lparr>s_lease := Some lease\<rparr> # rest
      else up # add_source lease rest)"

text \<open>
  The loop of \<^verbatim>\<open>ni_objectmodel_updater_select_source\<close>, with \<open>best\<close> as the
  accumulator (\<open>None\<close> is NULL).
\<close>

fun select_loop :: "ni_updater_source option \<Rightarrow> ni_updater_source list \<Rightarrow> ni_updater_source option" where
  "select_loop best [] = best"
| "select_loop best (src # rest) =
     select_loop (case best of None \<Rightarrow> Some src
                  | Some b \<Rightarrow> if s_weight b < s_weight src then Some src else Some b) rest"

definition ni_objectmodel_updater_select_source :: "ni_updater \<Rightarrow> ni_updater_source option" where
  "ni_objectmodel_updater_select_source updater = select_loop None (sources updater)"

section \<open>Purging Sources whose lease went away\<close>

text \<open>
  The purge loop of \<^verbatim>\<open>ni_system_update_all\<close>:

  \<^verbatim>\<open>for (pos = &updater->sources; (up = *pos) != NULL; pos = &up->next) {
      if (up->lease == NULL) { *pos = up->next; free(up); }
  }\<close>

  When the lease pointer of \<open>up\<close> is NULL the body unlinks \<open>up\<close> and frees it.  The
  loop then advances \<open>pos\<close> to \<^verbatim>\<open>&up->next\<close> all the same, and its condition reads
  \<^verbatim>\<open>*pos\<close>: the \<open>next\<close> field of the node that has just been freed.  C gives no
  meaning to that read, and the model stops there with the fault
  \<open>Use_After_Free\<close> and the list as it stands at that point (with \<open>up\<close> unlinked).
  So the loop runs to its end exactly on a list in which no lease pointer is
  NULL, and then leaves the list as it is.  The function \<open>purge_ptr\<close> below is the
  same loop on an explicit store.
\<close>

datatype fault = Use_After_Free

fun purge_loop ::
  "ni_updater_source list \<Rightarrow> fault \<times> ni_updater_source list + ni_updater_source list" where
  "purge_loop [] = Inr []"
| "purge_loop (up # rest) =
     (if s_lease up = None then Inl (Use_After_Free, rest)
      else case purge_loop rest of
             Inl (f, srcs) \<Rightarrow> Inl (f, up # srcs)
           | Inr srcs \<Rightarrow> Inr (up # srcs))"

definition purge_sources ::
  "ni_updater_source list \<Rightarrow> fault \<times> ni_updater_source list + ni_updater_source list" where
  "purge_sources srcs = purge_loop srcs"

section \<open>Backup, restore and install\<close>

text \<open>
  \<^verbatim>\<open>ni_system_updater_run\<close> is where update.c hands over to the script executor.  In
  the source its body is \<^verbatim>\<open>return 0\<close>: nothing is run and failure is reported.  The
  functions below take the executor's verdict as the parameter \<open>run\<close>, so that
  every statement about them covers the source's own executor
  (\<open>ni_system_updater_run\<close>) and any executor that can succeed.  Each function
  returns, after its C result and the updater, the scripts it handed to the
  executor, in order.
\<close>

type_synonym executor = "ni_process \<Rightarrow> string option \<Rightarrow> bool"

definition ni_system_updater_run :: executor where
  "ni_system_updater_run proc filename = False"

definition ni_system_updater_backup ::
  "executor \<Rightarrow> ni_updater \<Rightarrow> bool \<times> ni_updater \<times> ni_process list" where
  "ni_system_updater_backup run updater =
     (if have_backup updater then (True, updater, [])
      else case proc_backup updater of
        None \<Rightarrow> (True, updater, [])
      | Some proc \<Rightarrow>
          if run proc None then (True, updater\<lparr>have_backup := True\<rparr>, [proc])
          else (False, updater, [proc]))"

definition ni_system_updater_restore ::
  "executor \<Rightarrow> ni_updater \<Rightarrow> bool \<times> ni_updater \<times> ni_process list" where
  "ni_system_updater_restore run updater =
     (if have_backup updater then
        (case proc_restore updater of
           None \<Rightarrow> (True, updater, [])
         | Some proc \<Rightarrow>
             if run proc None then (True, updater\<lparr>have_backup := False\<rparr>, [proc])
             else (False, updater, [proc]))
      else (True, updater, []))"

text \<open>
  The \<^verbatim>\<open>switch\<close> of \<^verbatim>\<open>ni_system_updater_install\<close>: the labels for the hostname and
  the resolver kind carry no statement and fall through to \<^verbatim>\<open>default\<close>, which
  reports the error, clears \<open>enabled\<close> and returns 0.  The two statements after the
  \<^verbatim>\<open>switch\<close> (\<^verbatim>\<open>updater->seqno = lease->seqno; return 1;\<close>) cannot be reached.
\<close>

fun install_switch :: "ni_updater \<Rightarrow> bool \<times> ni_updater" where
  "install_switch updater =
     (case u_type updater of
        NI_ADDRCONF_UPDATE_HOSTNAME \<Rightarrow> (False, updater\<lparr>enabled := False\<rparr>)
      | NI_ADDRCONF_UPDATE_RESOLVER \<Rightarrow> (False, updater\<lparr>enabled := False\<rparr>)
      | _ \<Rightarrow> (False, updater\<lparr>enabled := False\<rparr>))"

definition ni_system_updater_install ::
  "executor \<Rightarrow> ni_updater \<Rightarrow> ni_addrconf_lease option \<Rightarrow> bool \<times> ni_updater \<times> ni_process list" where
  "ni_system_updater_install run updater lease =
     (if have_backup updater then
        (case install_switch updater of (ok, u) \<Rightarrow> (ok, u, []))
      else
        (case ni_system_updater_backup run updater of
           (backed_up, u, scripts) \<Rightarrow>
             if backed_up then (case install_switch u of (ok, u') \<Rightarrow> (ok, u', scripts))
             else (False, u, scripts)))"

section \<open>The reconciliation pass\<close>

text \<open>
  The process-wide state of update.c: the one-shot flag of
  \<^verbatim>\<open>ni_system_updaters_init\<close>, the array \<^verbatim>\<open>updaters\<close> (one slot per kind) and, added
  for the statements about script invocations, the scripts handed to the
  executor so far, each with the kind of the updater that ran it.
\<close>

record ni_state =
  initialized :: bool
  updaters :: "ni_addrconf_update \<Rightarrow> ni_updater"
  invoked :: "(ni_addrconf_update \<times> ni_process) list"

text \<open>The slots of the array in the order of the loops over \<open>kind\<close>.\<close>

definition update_kinds :: "ni_addrconf_update list" where
  "update_kinds =
     [NI_ADDRCONF_UPDATE_HOSTNAME, NI_ADDRCONF_UPDATE_RESOLVER, NI_ADDRCONF_UPDATE_OTHER]"

fun ni_updater_name :: "ni_addrconf_update \<Rightarrow> string option" where
  "ni_updater_name NI_ADDRCONF_UPDATE_HOSTNAME = Some ''hostname''"
| "ni_updater_name NI_ADDRCONF_UPDATE_RESOLVER = Some ''resolver''"
| "ni_updater_name _ = None"

text \<open>
  The configuration read by \<^verbatim>\<open>ni_system_updaters_init\<close>: \<^verbatim>\<open>ni_config_find_extension\<close>
  maps an extension name to an extension, \<^verbatim>\<open>ni_extension_script_find\<close> maps a
  script name to a script handle.
\<close>

type_synonym ni_extension = "string \<Rightarrow> ni_process option"
type_synonym ni_config = "string \<Rightarrow> ni_extension option"

definition updater_init_kind :: "ni_config \<Rightarrow> ni_addrconf_update \<Rightarrow> ni_updater \<Rightarrow> ni_updater" where
  "updater_init_kind config kind updater0 =
     (let updater = updater0\<lparr>u_type := kind\<rparr> in
      case ni_updater_name kind of
        None \<Rightarrow> updater
      | Some name \<Rightarrow>
          (case config (name @ ''-updater'') of
             None \<Rightarrow> updater
           | Some ex \<Rightarrow>
               (let u = updater\<lparr>enabled := True, proc_backup := ex ''backup'',
                                proc_restore := ex ''restore'', proc_install := ex ''install''\<rparr>
                in if proc_install u = None then u\<lparr>enabled := False\<rparr>
                   else if proc_backup u = None \<or> proc_restore u = None
                   then u\<lparr>proc_backup := None, proc_restore := None\<rparr>
                   else u)))"

definition ni_system_updaters_init :: "ni_config \<Rightarrow> ni_state \<Rightarrow> ni_state" where
  "ni_system_updaters_init config st =
     (if initialized st then st
      else st\<lparr>initialized := True,
              updaters := (\<lambda>kind. updater_init_kind config kind (updaters st kind))\<rparr>)"

text \<open>
  The header's \<^verbatim>\<open>__ni_addrconf_should_update\<close> tests the kind's bit of the mask:
  membership in \<open>l_update\<close>.
\<close>

definition can_update_hostname :: "ni_addrconf_lease \<Rightarrow> bool" where
  "can_update_hostname lease =
     (NI_ADDRCONF_UPDATE_HOSTNAME \<in> l_update lease \<and> l_hostname lease \<noteq> None)"

definition can_update_resolver :: "ni_addrconf_lease \<Rightarrow> bool" where
  "can_update_resolver lease =
     (NI_ADDRCONF_UPDATE_RESOLVER \<in> l_update lease \<and> l_resolver lease \<noteq> None)"

definition ni_objectmodel_updater_add_source ::
  "ni_addrconf_update \<Rightarrow> ni_addrconf_lease \<Rightarrow> (ni_addrconf_update \<Rightarrow> ni_updater)
     \<Rightarrow> (ni_addrconf_update \<Rightarrow> ni_updater)" where
  "ni_objectmodel_updater_add_source kind lease ups =
     ups(kind := (ups kind)\<lparr>sources := add_source lease (sources (ups kind))\<rparr>)"

text \<open>A network device, as far as the pass reads it: its list of leases.\<close>

record ni_interface =
  if_name :: string
  leases :: "ni_addrconf_lease list"

definition clear_leases :: "ni_updater \<Rightarrow> ni_updater" where
  "clear_leases updater =
     updater\<lparr>sources := map (\<lambda>up. up\<lparr>s_lease := None\<rparr>) (sources updater)\<rparr>"

definition scan_lease ::
  "ni_addrconf_lease \<Rightarrow> (ni_addrconf_update \<Rightarrow> ni_updater) \<Rightarrow> (ni_addrconf_update \<Rightarrow> ni_updater)" where
  "scan_lease lease ups =
     (let ups1 = (if can_update_hostname lease
                  then ni_objectmodel_updater_add_source NI_ADDRCONF_UPDATE_HOSTNAME lease ups
                  else ups)
      in if can_update_resolver lease
         then ni_objectmodel_updater_add_source NI_ADDRCONF_UPDATE_RESOLVER lease ups1
         else ups1)"

definition scan_devices ::
  "ni_interface list \<Rightarrow> (ni_addrconf_update \<Rightarrow> ni_updater) \<Rightarrow> (ni_addrconf_update \<Rightarrow> ni_updater)" where
  "scan_devices devs ups = fold (\<lambda>dev. fold scan_lease (leases dev)) devs ups"

text \<open>
  The body of the third loop of \<^verbatim>\<open>ni_system_update_all\<close>, for one slot.  A fault
  of the purge loop ends it, with the updater as it stands at the fault.
\<close>

definition update_kind ::
  "executor \<Rightarrow> ni_updater \<Rightarrow> fault \<times> ni_updater + ni_updater \<times> ni_process list" where
  "update_kind run updater0 =
     (if enabled updater0 then
        (case purge_sources (sources updater0) of
           Inl (f, srcs) \<Rightarrow> Inl (f, updater0\<lparr>sources := srcs\<rparr>)
         | Inr srcs \<Rightarrow>
             (let updater = updater0\<lparr>sources := srcs\<rparr> in
              case ni_objectmodel_updater_select_source updater of
                None \<Rightarrow>
                  (case ni_system_updater_restore run updater of
                     (ok, u, scripts) \<Rightarrow> Inr (u, scripts))
              | Some up \<Rightarrow>
                  if u_seqno updater \<noteq> s_seqno up
                  then (case ni_system_updater_install run updater (s_lease up) of
                          (ok, u, scripts) \<Rightarrow> Inr (u, scripts))
                  else Inr (updater, [])))
      else Inr (updater0, []))"

definition apply_kind ::
  "executor \<Rightarrow> ni_addrconf_update \<Rightarrow> ni_state \<Rightarrow> fault \<times> ni_state + ni_state" where
  "apply_kind run kind st =
     (case update_kind run (updaters st kind) of
        Inl (f, u) \<Rightarrow> Inl (f, st\<lparr>updaters := (updaters st)(kind := u)\<rparr>)
      | Inr (u, scripts) \<Rightarrow>
          Inr (st\<lparr>updaters := (updaters st)(kind := u),
                  invoked := invoked st @ map (Pair kind) scripts\<rparr>))"

fun apply_kinds ::
  "executor \<Rightarrow> ni_addrconf_update list \<Rightarrow> ni_state \<Rightarrow> fault \<times> ni_state + ni_state" where
  "apply_kinds run [] st = Inr st"
| "apply_kinds run (kind # kinds) st =
     (case apply_kind run kind st of
        Inl stopped \<Rightarrow> Inl stopped
      | Inr st' \<Rightarrow> apply_kinds run kinds st')"

text \<open>
  \<^verbatim>\<open>ni_system_update_all\<close>.  The result is \<open>Inr\<close> with the C result and the new state
  when the pass runs to its \<^verbatim>\<open>return\<close>, and \<open>Inl\<close> with the fault and the state at
  that point when the purge loop reads freed memory.
\<close>

definition ni_system_update_all ::
  "executor \<Rightarrow> ni_config \<Rightarrow> ni_interface list \<Rightarrow> ni_state
     \<Rightarrow> fault \<times> ni_state + bool \<times> ni_state" where
  "ni_system_update_all run config devs st0 =
     (let st1 = ni_system_updaters_init config st0;
          st2 = st1\<lparr>updaters := (\<lambda>kind. clear_leases (updaters st1 kind))\<rparr>;
          st3 = st2\<lparr>updaters := scan_devices devs (updaters st2)\<rparr>
      in case apply_kinds run update_kinds st3 of
           Inl stopped \<Rightarrow> Inl stopped
         | Inr st4 \<Rightarrow> Inr (True, st4))"

definition ni_system_update_from_lease ::
  "executor \<Rightarrow> ni_config \<Rightarrow> ni_interface list \<Rightarrow> ni_addrconf_lease \<Rightarrow> ni_state
     \<Rightarrow> fault \<times> ni_state + int \<times> ni_state" where
  "ni_system_update_from_lease run config devs lease st =
     (case ni_system_update_all run config devs st of
        Inl stopped \<Rightarrow> Inl stopped
      | Inr (ok, st') \<Rightarrow> if ok then Inr (0, st') else Inr (- 1, st'))"

text \<open>The state in which a pass ended, and whether it returned.\<close>

definition pass_state :: "fault \<times> ni_state + 'a \<times> ni_state \<Rightarrow> ni_state" where
  "pass_state r = (case r of Inl (f, st) \<Rightarrow> st | Inr (v, st) \<Rightarrow> st)"

definition pass_result :: "fault \<times> ni_state + 'a \<times> ni_state \<Rightarrow> fault + 'a" where
  "pass_result r = (case r of Inl (f, st) \<Rightarrow> Inl f | Inr (v, st) \<Rightarrow> Inr v)"

text \<open>The state of the process before the first pass: static storage is zeroed.\<close>

definition updater_zero :: ni_updater where
  "updater_zero = \<lparr> sources = [], u_type = NI_ADDRCONF_UPDATE_OTHER, u_seqno = 0,
     have_backup = False, enabled = False,
     proc_backup = None, proc_restore = None, proc_install = None \<rparr>"


text \<open>Everything an updater holds besides its Source list.\<close>

definition settings :: "ni_updater \<Rightarrow> ni_updater" where
  "settings updater = updater\<lparr>sources := []\<rparr>"

definition state_zero :: ni_state where
  "state_zero = \<lparr> initialized = False, updaters = (\<lambda>kind. updater_zero), invoked = [] \<rparr>"

section \<open>The purge loop on an explicit store\<close>

text \<open>
  The same loop with the nodes in a store and \<open>pos\<close> as the address of a pointer:
  the head pointer of the updater or the \<open>next\<close> field of a node.  \<^verbatim>\<open>free\<close> ends the
  life of a node; reading a field of a node that is not live is the fault
  \<open>Use_After_Free\<close>, which ends the loop with the store as it stands.  The loop is
  bounded by fuel; \<open>None\<close> means that the fuel ran out.
\<close>

type_synonym addr = nat

record node =
  n_next :: "addr option"
  n_source :: ni_updater_source
  n_live :: bool

record store =
  head :: "addr option"
  nodes :: "addr \<Rightarrow> node"

datatype slot = Head | Next_Of addr

fun load :: "store \<Rightarrow> slot \<Rightarrow> fault + addr option" where
  "load m Head = Inr (head m)"
| "load m (Next_Of a) =
     (if n_live (nodes m a) then Inr (n_next (nodes m a)) else Inl Use_After_Free)"

fun store_ptr :: "store \<Rightarrow> slot \<Rightarrow> addr option \<Rightarrow> store" where
  "store_ptr m Head v = m\<lparr>head := v\<rparr>"
| "store_ptr m (Next_Of a) v = m\<lparr>nodes := (nodes m)(a := (nodes m a)\<lparr>n_next := v\<rparr>)\<rparr>"

definition free :: "store \<Rightarrow> addr \<Rightarrow> store" where
  "free m a = m\<lparr>nodes := (nodes m)(a := (nodes m a)\<lparr>n_live := False\<rparr>)\<rparr>"

fun purge_ptr :: "nat \<Rightarrow> store \<Rightarrow> slot \<Rightarrow> (fault \<times> store + store) option" where
  "purge_ptr 0 m pos = None"
| "purge_ptr (Suc fuel) m pos =
     (case load m pos of
        Inl f \<Rightarrow> Some (Inl (f, m))
      | Inr None \<Rightarrow> Some (Inr m)
      | Inr (Some up) \<Rightarrow>
          if n_live (nodes m up) then
            purge_ptr fuel
              (if s_lease (n_source (nodes m up)) = None
               then free (store_ptr m pos (n_next (nodes m up))) up
               else m)
              (Next_Of up)
          else Some (Inl (Use_After_Free, m)))"

text \<open>
  The Sources of the live nodes reached from a pointer, in order; \<open>None\<close> when the
  fuel runs out or a node on the way is not live.
\<close>

fun walk :: "nat \<Rightarrow> (addr \<Rightarrow> node) \<Rightarrow> addr option \<Rightarrow> ni_updater_source list option" where
  "walk fuel h None = Some []"
| "walk 0 h (Some a) = None"
| "walk (Suc fuel) h (Some a) =
     (if n_live (h a) then
        (case walk fuel h (n_next (h a)) of
           None \<Rightarrow> None
         | Some srcs \<Rightarrow> Some (n_source (h a) # srcs))
      else None)"

text \<open>
  A Source list laid out in the store: the node of the Source at index \<open>i\<close> is at
  address \<open>a + i\<close>; every other address holds a node that is not live.
\<close>

definition blank :: node where
  "blank = \<lparr> n_next = None,
             n_source = \<lparr> s_seqno = 0, s_weight = 0, s_lease = None \<rparr>,
             n_live = False \<rparr>"

fun layout_nodes :: "addr \<Rightarrow> ni_updater_source list \<Rightarrow> (addr \<Rightarrow> node)" where
  "layout_nodes a [] = (\<lambda>b. blank)"
| "layout_nodes a (src # rest) =
     (layout_nodes (Suc a) rest)
       (a := \<lparr> n_next = (if rest = [] then None else Some (Suc a)),
               n_source = src, n_live = True \<rparr>)"

definition layout :: "ni_updater_source list \<Rightarrow> store" where
  "layout srcs = \<lparr> head = (if srcs = [] then None else Some 0), nodes = layout_nodes 0 srcs \<rparr>"

text \<open>The list that the head pointer of a store reaches, and the store of an outcome.\<close>

definition store_of :: "fault \<times> store + store \<Rightarrow> store" where
  "store_of r = (case r of Inl (f, m) \<Rightarrow> m | Inr m \<Rightarrow> m)"

definition list_of :: "nat \<Rightarrow> store \<Rightarrow> ni_updater_source list option" where
  "list_of fuel m = walk fuel (nodes m) (head m)"

section \<open>The DHCP4 service methods of dhcp4/dbus-api.c\<close>

text \<open>
  A method argument is a variant.  A \<^verbatim>\<open>DBusError\<close> is a name (the error domain) and
  a message.  The helpers that the two methods call are outside this file and
  are parameters: \<open>set_request\<close> is \<^verbatim>\<open>__wicked_dbus_set_addrconf_request\<close> (on failure
  it may have set the error), \<open>acquire\<close> is \<^verbatim>\<open>ni_dhcp_acquire\<close>, \<open>release\<close> is
  \<^verbatim>\<open>ni_dhcp_release\<close> (both return a negative number on failure), \<open>strerror\<close> is
  \<^verbatim>\<open>ni_strerror\<close>.  A method returns its C result, the error it has set, if any,
  and the calls it made to \<open>acquire\<close> and \<open>release\<close>.
\<close>

datatype ni_dbus_variant =
  DBUS_BYTE_ARRAY "8 word list"
| DBUS_DICT "(string \<times> string) list"
| DBUS_STRING string

datatype dbus_error_name = DBUS_ERROR_INVALID_ARGS | DBUS_ERROR_FAILED | DBUS_ERROR_OTHER string

record DBusError =
  e_name :: dbus_error_name
  e_message :: string

record ni_dhcp_device =
  ifname :: string

record ni_addrconf_request =
  r_type :: ni_addrconf_mode
  r_family :: address_family
  r_options :: "(string \<times> string) list"

definition ni_addrconf_request_new :: "ni_addrconf_mode \<Rightarrow> address_family \<Rightarrow> ni_addrconf_request" where
  "ni_addrconf_request_new t f = \<lparr> r_type = t, r_family = f, r_options = [] \<rparr>"

type_synonym ni_uuid = "8 word list"

datatype dhcp_call =
  Acquire_Call ni_dhcp_device ni_addrconf_request
| Release_Call ni_dhcp_device ni_uuid

record svc_result =
  ret :: bool
  error :: "DBusError option"
  calls :: "dhcp_call list"

definition wicked_dbus_dhcp4_acquire_svc ::
  "(ni_addrconf_request \<Rightarrow> ni_dbus_variant \<Rightarrow> DBusError option + ni_addrconf_request)
     \<Rightarrow> (ni_dhcp_device \<Rightarrow> ni_addrconf_request \<Rightarrow> int) \<Rightarrow> (int \<Rightarrow> string)
     \<Rightarrow> ni_dhcp_device \<Rightarrow> ni_dbus_variant list \<Rightarrow> svc_result" where
  "wicked_dbus_dhcp4_acquire_svc set_request acquire strerror dev argv =
     (let req = ni_addrconf_request_new NI_ADDRCONF_DHCP AF_INET in
      case argv of
        [] \<Rightarrow> \<lparr> ret = False,
                error = Some \<lparr> e_name = DBUS_ERROR_INVALID_ARGS,
                  e_message = ''Missing arguments in __wicked_dbus_dhcp4_acquire_svc'' \<rparr>,
                calls = [] \<rparr>
      | arg # more_args \<Rightarrow>
          (case set_request req arg of
             Inl err \<Rightarrow> \<lparr> ret = False, error = err, calls = [] \<rparr>
           | Inr req' \<Rightarrow>
               (let rv = acquire dev req' in
                if rv < 0
                then \<lparr> ret = False,
                       error = Some \<lparr> e_name = DBUS_ERROR_FAILED,
                         e_message = ''Cannot configure interface '' @ ifname dev @ '': ''
                                       @ strerror rv \<rparr>,
                       calls = [Acquire_Call dev req'] \<rparr>
                else \<lparr> ret = True, error = None, calls = [Acquire_Call dev req'] \<rparr>)))"

text \<open>
  Modelled from the spec: \<^verbatim>\<open>ni_dbus_variant_get_byte_array_minmax\<close> (dbus-common, not
  under src/) yields the bytes of the variant when it is a byte array whose
  length is within the two bounds, and fails otherwise; \<^verbatim>\<open>drop\<close> calls it with both
  bounds 16 ("identifier present but not exactly 16 bytes").
\<close>

definition ni_dbus_variant_get_byte_array_minmax ::
  "ni_dbus_variant \<Rightarrow> nat \<Rightarrow> nat \<Rightarrow> 8 word list option" where
  "ni_dbus_variant_get_byte_array_minmax var minlen maxlen =
     (case var of
        DBUS_BYTE_ARRAY bytes \<Rightarrow>
          if length bytes < minlen \<or> maxlen < length bytes then None else Some bytes
      | _ \<Rightarrow> None)"

definition zero_uuid :: ni_uuid where
  "zero_uuid = replicate 16 0"

definition wicked_dbus_dhcp4_drop_svc ::
  "(ni_dhcp_device \<Rightarrow> ni_uuid \<Rightarrow> int) \<Rightarrow> (int \<Rightarrow> string)
     \<Rightarrow> ni_dhcp_device \<Rightarrow> ni_dbus_variant list \<Rightarrow> svc_result" where
  "wicked_dbus_dhcp4_drop_svc release strerror dev argv =
     (case (case argv of
              [arg] \<Rightarrow> ni_dbus_variant_get_byte_array_minmax arg 16 16
            | _ \<Rightarrow> Some zero_uuid) of
        None \<Rightarrow> \<lparr> ret = False,
                  error = Some \<lparr> e_name = DBUS_ERROR_INVALID_ARGS,
                                 e_message = ''bad uuid argument'' \<rparr>,
                  calls = [] \<rparr>
      | Some uuid \<Rightarrow>
          (let rv = release dev uuid in
           if rv < 0
           then \<lparr> ret = False,
                  error = Some \<lparr> e_name = DBUS_ERROR_FAILED,
                    e_message = ''Unable to drop DHCP lease for interface '' @ ifname dev @ '': ''
                                  @ strerror rv \<rparr>,
                  calls = [Release_Call dev uuid] \<rparr>
           else \<lparr> ret = True, error = None, calls = [Release_Call dev uuid] \<rparr>))"

section \<open>Concrete configurations and leases\<close>

text \<open>
  A configuration with a hostname updater that names all three scripts, and the
  two leases of Scenario A: a DHCP lease over IPv4 with sequence number 1 and a
  firmware (iBFT) lease with sequence number 2, both allowed to set the hostname.
\<close>

definition hostname_extension :: ni_extension where
  "hostname_extension script =
     (if script = ''backup'' then Some ''hostname-backup''
      else if script = ''restore'' then Some ''hostname-restore''
      else if script = ''install'' then Some ''hostname-install''
      else None)"

definition hostname_config :: ni_config where
  "hostname_config exname = (if exname = ''hostname-updater'' then Some hostname_extension else None)"

definition dhcp_lease :: ni_addrconf_lease where
  "dhcp_lease = \<lparr> l_type = NI_ADDRCONF_DHCP, l_family = AF_INET, l_seqno = 1,
     l_update = {NI_ADDRCONF_UPDATE_HOSTNAME}, l_hostname = Some ''dhcp-host'',
     l_resolver = None \<rparr>"

definition firmware_lease :: ni_addrconf_lease where
  "firmware_lease = \<lparr> l_type = NI_ADDRCONF_IBFT, l_family = AF_INET6, l_seqno = 2,
     l_update = {NI_ADDRCONF_UPDATE_HOSTNAME}, l_hostname = Some ''firmware-host'',
     l_resolver = None \<rparr>"

definition firmware_ipv4_lease :: ni_addrconf_lease where
  "firmware_ipv4_lease = firmware_lease\<lparr>l_family := AF_INET\<rparr>"

definition eth0 :: ni_interface where
  "eth0 = \<lparr> if_name = ''eth0'', leases = [dhcp_lease, firmware_lease] \<rparr>"

text \<open>A firmware lease that carries the sequence number of the DHCP lease.\<close>

definition firmware_lease_seqno1 :: ni_addrconf_lease where
  "firmware_lease_seqno1 = firmware_lease\<lparr>l_seqno := 1\<rparr>"

definition eth0_down :: ni_interface where
  "eth0_down = \<lparr> if_name = ''eth0'', leases = [] \<rparr>"

definition always_succeeds :: executor where
  "always_succeeds proc filename = True"

definition stale_source :: ni_updater_source where
  "stale_source = \<lparr> s_seqno = 1, s_weight = 51, s_lease = None \<rparr>"

definition backed_up_updater :: ni_updater where
  "backed_up_updater = \<lparr> sources = [], u_type = NI_ADDRCONF_UPDATE_HOSTNAME, u_seqno = 5,
     have_backup = True, enabled = True,
     proc_backup = Some ''hostname-backup'', proc_restore = Some ''hostname-restore'',
     proc_install = Some ''hostname-install'' \<rparr>"

definition hostname_updater0 :: ni_updater where
  "hostname_updater0 = \<lparr> sources = [], u_type = NI_ADDRCONF_UPDATE_HOSTNAME, u_seqno = 0,
     have_backup = False, enabled = True,
     proc_backup = Some ''hostname-backup'', proc_restore = Some ''hostname-restore'',
     proc_install = Some ''hostname-install'' \<rparr>"

text \<open>
  The state of the process under \<open>hostname_config\<close> after initialisation, with the
  hostname updater and the scripts handed to the executor so far.
\<close>

definition hostname_state ::
  "ni_updater \<Rightarrow> (ni_addrconf_update \<times> ni_process) list \<Rightarrow> ni_state" where
  "hostname_state u log =
     \<lparr> initialized = True,
       updaters = (\<lambda>kind. updater_zero\<lparr>u_type := kind\<rparr>)(NI_ADDRCONF_UPDATE_HOSTNAME := u),
       invoked = log \<rparr>"

definition stale_source2 :: ni_updater_source where
  "stale_source2 = \<lparr> s_seqno = 2, s_weight = 100, s_lease = None \<rparr>"

text \<open>
  A helper for \<^verbatim>\<open>__wicked_dbus_set_addrconf_request\<close> that accepts a dictionary and
  rejects any other variant, and a device.
\<close>

definition dict_request ::
  "ni_addrconf_request \<Rightarrow> ni_dbus_variant \<Rightarrow> DBusError option + ni_addrconf_request" where
  "dict_request req var =
     (case var of
        DBUS_DICT d \<Rightarrow> Inr (req\<lparr>r_options := d\<rparr>)
      | _ \<Rightarrow> Inl (Some \<lparr> e_name = DBUS_ERROR_INVALID_ARGS,
                          e_message = ''Cannot extract addrconf request from property dict'' \<rparr>))"

definition uuid16 :: ni_uuid where
  "uuid16 = [1, 2, 3, 4, 5, 6, 7, 8, 9, 10, 11, 12, 13, 14, 15, 16]"

definition dhcp_eth0 :: ni_dhcp_device where
  "dhcp_eth0 = \<lparr> ifname = ''eth0'' \<rparr>"

section \<open>Auxiliary notions for the proofs\<close>

text \<open>The updaters as the third loop of a pass finds them.\<close>

definition scanned ::
  "ni_config \<Rightarrow> ni_interface list \<Rightarrow> ni_state \<Rightarrow> ni_addrconf_update \<Rightarrow> ni_updater" where
  "scanned config devs st =
     scan_devices devs (\<lambda>kind. clear_leases (updaters (ni_system_updaters_init config st) kind))"


text \<open>A pointer slot lies below an address: the head, or the \<open>next\<close> field of an earlier node.\<close>

fun below :: "addr \<Rightarrow> slot \<Rightarrow> bool" where
  "below a Head = True"
| "below a (Next_Of d) = (d < a)"

definition start :: "addr \<Rightarrow> ni_updater_source list \<Rightarrow> addr option" where
  "start a srcs = (if srcs = [] then None else Some a)"


section \<open>Arbitration: lemmas\<close>

lemma select_loop_None: "(select_loop best xs = None) = (best = None \<and> xs = [])"
  by (induction xs arbitrary: best) (auto split: option.splits)

lemma select_loop_first_max:
  "select_loop (Some b) xs = Some r \<Longrightarrow>
   (\<forall>s\<in>set pre0. s_weight s < s_weight b) \<Longrightarrow>
   (\<forall>s\<in>set mid0. s_weight s \<le> s_weight b) \<Longrightarrow>
   \<exists>pre post. pre0 @ b # mid0 @ xs = pre @ r # post
      \<and> (\<forall>s\<in>set pre. s_weight s < s_weight r)
      \<and> (\<forall>s\<in>set post. s_weight s \<le> s_weight r)"
proof (induction xs arbitrary: b pre0 mid0)
  case Nil
  then show ?case by auto
next
  case (Cons x xs)
  show ?case
  proof (cases "s_weight b < s_weight x")
    case True
    with Cons.prems have sel: "select_loop (Some x) xs = Some r" by simp
    have "\<forall>s\<in>set (pre0 @ b # mid0). s_weight s < s_weight x"
      using Cons.prems(2,3) True by fastforce
    from Cons.IH[OF sel this, of "[]"] show ?thesis by simp
  next
    case False
    with Cons.prems have sel: "select_loop (Some b) xs = Some r" by simp
    have "\<forall>s\<in>set (mid0 @ [x]). s_weight s \<le> s_weight b"
      using Cons.prems(3) False by auto
    from Cons.IH[OF sel Cons.prems(2) this] show ?thesis by simp
  qed
qed


section \<open>Registration: lemmas\<close>

lemma add_source_seqnos:
  "s_seqno ` set (add_source lease srcs) = insert (l_seqno lease) (s_seqno ` set srcs)"
  by (induction srcs) (auto simp: new_source_def)

lemma add_source_present:
  "l_seqno lease \<in> s_seqno ` set srcs \<Longrightarrow> length (add_source lease srcs) = length srcs"
  by (induction srcs) auto

lemma add_source_length: "length (add_source lease srcs) \<le> Suc (length srcs)"
  by (induction srcs) auto

lemma add_source_refresh:
  "\<forall>s\<in>set pre. s_seqno s \<noteq> l_seqno lease \<Longrightarrow> s_seqno up = l_seqno lease \<Longrightarrow>
   add_source lease (pre @ up # post) = pre @ up\<lparr>s_lease := Some lease\<rparr> # post"
  by (induction pre) auto

lemma add_source_append:
  "\<forall>s\<in>set srcs. s_seqno s \<noteq> l_seqno lease \<Longrightarrow> add_source lease srcs = srcs @ [new_source lease]"
  by (induction srcs) auto

lemma add_source_distinct:
  "distinct (map s_seqno srcs) \<Longrightarrow> distinct (map s_seqno (add_source lease srcs))"
proof (induction srcs)
  case Nil then show ?case by simp
next
  case (Cons a srcs)
  then show ?case using add_source_seqnos[of lease srcs] by (auto simp: image_iff) 
qed

lemma fold_add_source_same_seqno:
  "\<forall>l\<in>set ls. l_seqno l = n \<Longrightarrow> n \<in> s_seqno ` set srcs \<Longrightarrow>
     length (fold add_source ls srcs) = length srcs"
proof (induction ls arbitrary: srcs)
  case Nil then show ?case by simp
next
  case (Cons l ls)
  have "n \<in> s_seqno ` set (add_source l srcs)" using Cons.prems by (simp add: add_source_seqnos)
  with Cons show ?case by (simp add: add_source_present)
qed

lemma fold_add_source_grows_once:
  "\<forall>l\<in>set ls. l_seqno l = n \<Longrightarrow> length (fold add_source ls srcs) \<le> Suc (length srcs)"
proof (cases ls)
  case Nil then show ?thesis by simp
next
  case (Cons l ls')
  assume a: "\<forall>l\<in>set ls. l_seqno l = n"
  have "n \<in> s_seqno ` set (add_source l srcs)" using a Cons by (simp add: add_source_seqnos)
  with a Cons have "length (fold add_source ls' (add_source l srcs)) = length (add_source l srcs)"
    by (intro fold_add_source_same_seqno[where n=n]) auto
  then show ?thesis using Cons add_source_length[of l srcs] by simp
qed


lemma add_source_keeps_weights:
  "l_seqno lease \<in> s_seqno ` set srcs \<Longrightarrow>
     map s_weight (add_source lease srcs) = map s_weight srcs"
  by (induction srcs) auto


section \<open>The pass: lemmas\<close>

lemma settings_clear [simp]: "settings (clear_leases u) = settings u"
  by (simp add: settings_def clear_leases_def)

lemma settings_add [simp]:
  "settings (ni_objectmodel_updater_add_source kind lease ups k) = settings (ups k)"
  by (simp add: settings_def ni_objectmodel_updater_add_source_def)

lemma settings_scan_lease [simp]: "settings (scan_lease lease ups k) = settings (ups k)"
  by (simp add: scan_lease_def Let_def)

lemma settings_fold_scan_lease: "settings (fold scan_lease ls ups k) = settings (ups k)"
  by (induction ls arbitrary: ups) simp_all

lemma settings_scan_devices [simp]: "settings (scan_devices devs ups k) = settings (ups k)"
  unfolding scan_devices_def
  by (induction devs arbitrary: ups) (simp_all add: settings_fold_scan_lease)

lemma settings_scanned [simp]:
  "settings (scanned config devs st k) = settings (updaters (ni_system_updaters_init config st) k)"
  by (simp add: scanned_def)


lemma settings_sources [simp]: "settings (u\<lparr>sources := xs\<rparr>) = settings u"
  by (simp add: settings_def)

lemma purge_loop_Inr: "purge_loop srcs = Inr l \<Longrightarrow> l = srcs \<and> (\<forall>s\<in>set srcs. s_lease s \<noteq> None)"
  by (induction srcs arbitrary: l) (auto split: if_splits sum.splits)

lemma purge_loop_live: "\<forall>s\<in>set srcs. s_lease s \<noteq> None \<Longrightarrow> purge_loop srcs = Inr srcs"
  by (induction srcs) auto

lemma purge_loop_stale:
  "s_lease s = None \<Longrightarrow> s \<in> set srcs \<Longrightarrow> \<exists>l. purge_loop srcs = Inl (Use_After_Free, l)"
  by (induction srcs) (auto split: sum.splits)






lemma init_idem [simp]:
  "ni_system_updaters_init config (ni_system_updaters_init config st) = ni_system_updaters_init config st"
  by (simp add: ni_system_updaters_init_def)

lemma init_initialized [simp]: "initialized (ni_system_updaters_init config st)"
  by (simp add: ni_system_updaters_init_def)


lemma init_invoked [simp]: "invoked (ni_system_updaters_init config st) = invoked st"
  by (simp add: ni_system_updaters_init_def)

lemma update_all_alt:
  "ni_system_update_all run config devs st =
     (case apply_kinds run update_kinds
             ((ni_system_updaters_init config st)\<lparr>updaters := scanned config devs st\<rparr>) of
        Inl stopped \<Rightarrow> Inl stopped
      | Inr st4 \<Rightarrow> Inr (True, st4))"
  by (simp add: ni_system_update_all_def scanned_def Let_def)





section \<open>The purge loop on the store computes \<open>purge_sources\<close>\<close>

lemma layout_nodes_here:
  "layout_nodes a (up # rest) a = \<lparr> n_next = start (Suc a) rest, n_source = up, n_live = True \<rparr>"
  by (simp add: start_def)

lemma walk_mono: "walk n h p = Some srcs \<Longrightarrow> walk (Suc n) h p = Some srcs"
proof (induction n h p arbitrary: srcs rule: walk.induct)
  case (1 fuel h)
  then show ?case by simp
next
  case (2 h a)
  then show ?case by simp
next
  case (3 fuel h a)
  then show ?case by (auto split: option.splits if_splits)
qed

lemma walk_layout:
  "\<forall>b\<ge>a. h b = layout_nodes a rest b \<Longrightarrow> walk (length rest) h (start a rest) = Some rest"
proof (induction rest arbitrary: a)
  case Nil
  then show ?case by (simp add: start_def)
next
  case (Cons up rest)
  have here: "h a = \<lparr> n_next = start (Suc a) rest, n_source = up, n_live = True \<rparr>"
    using Cons.prems layout_nodes_here by simp
  have "\<forall>b\<ge>Suc a. h b = layout_nodes (Suc a) rest b" using Cons.prems by simp
  from Cons.IH[OF this] here show ?case by (simp add: start_def)
qed

lemma below_Suc: "below a s \<Longrightarrow> below (Suc a) s"
  by (cases s) auto

lemma below_neq: "below a s \<Longrightarrow> s \<noteq> Next_Of a"
  by (cases s) auto

lemma load_free_other: "s \<noteq> Next_Of a \<Longrightarrow> load (free m a) s = load m s"
  by (cases s) (auto simp: free_def)

lemma load_store_other: "s \<noteq> pos \<Longrightarrow> load (store_ptr m pos v) s = load m s"
  by (cases pos; cases s) auto

lemma load_store_same: "load m pos = Inr w \<Longrightarrow> load (store_ptr m pos v) pos = Inr v"
  by (cases pos) (auto split: if_splits)

lemma load_freed: "load (free m a) (Next_Of a) = Inl Use_After_Free"
  by (simp add: free_def)

lemma nodes_store_below: "below a pos \<Longrightarrow> a \<le> b \<Longrightarrow> nodes (store_ptr m pos v) b = nodes m b"
  by (cases pos) auto

lemma nodes_free_other: "b \<noteq> a \<Longrightarrow> nodes (free m a) b = nodes m b"
  by (simp add: free_def)

lemma node_store_fields:
  "n_source (nodes (store_ptr m pos v) b) = n_source (nodes m b)"
  "n_live (nodes (store_ptr m pos v) b) = n_live (nodes m b)"
  by (cases pos; simp)+

lemma purge_ptr_step:
  "load m pos = Inr (Some up) \<Longrightarrow> n_live (nodes m up) \<Longrightarrow>
   purge_ptr (Suc fuel) m pos =
     purge_ptr fuel (if s_lease (n_source (nodes m up)) = None
             then free (store_ptr m pos (n_next (nodes m up))) up else m) (Next_Of up)"
  by simp

lemma purge_ptr_fault:
  "load m pos = Inl f \<Longrightarrow> purge_ptr (Suc fuel) m pos = Some (Inl (f, m))"
  by simp

lemma purge_ptr_loop:
  assumes "\<forall>b\<ge>a. nodes m b = layout_nodes a rest b"
    and "load m pos = Inr (start a rest)" and "below a pos"
  shows "case purge_loop rest of
           Inr l \<Rightarrow> purge_ptr (Suc (length rest)) m pos = Some (Inr m)
         | Inl (f, l) \<Rightarrow>
             (\<exists>m' v. purge_ptr (Suc (length rest)) m pos = Some (Inl (f, m'))
                \<and> load m' pos = Inr v \<and> walk (length rest) (nodes m') v = Some l
                \<and> (\<forall>s. below a s \<and> s \<noteq> pos \<longrightarrow> load m' s = load m s)
                \<and> (\<forall>b<a. n_source (nodes m' b) = n_source (nodes m b)
                          \<and> n_live (nodes m' b) = n_live (nodes m b)))"
  using assms
proof (induction rest arbitrary: a m pos)
  case Nil
  then show ?case by (simp add: start_def)
next
  case (Cons up rest)
  have here: "nodes m a = \<lparr> n_next = start (Suc a) rest, n_source = up, n_live = True \<rparr>"
    using Cons.prems(1) layout_nodes_here by simp
  have ld: "load m pos = Inr (Some a)" using Cons.prems(2) by (simp add: start_def)
  have live: "n_live (nodes m a)" using here by simp
  show ?case
  proof (cases "s_lease up = None")
    case True
    let ?m1 = "free (store_ptr m pos (start (Suc a) rest)) a"
    have pos_a: "pos \<noteq> Next_Of a" using Cons.prems(3) by (rule below_neq)
    have "purge_ptr (Suc (length (up # rest))) m pos = purge_ptr (Suc (length rest)) ?m1 (Next_Of a)"
      using purge_ptr_step[OF ld live, of "Suc (length rest)"] here True
      by (simp del: purge_ptr.simps)
    also have "\<dots> = Some (Inl (Use_After_Free, ?m1))"
      by (rule purge_ptr_fault) (rule load_freed)
    finally have p: "purge_ptr (Suc (length (up # rest))) m pos = Some (Inl (Use_After_Free, ?m1))" .
    have l1: "load ?m1 pos = Inr (start (Suc a) rest)"
      using pos_a ld by (simp add: load_free_other load_store_same)
    have "\<forall>b\<ge>Suc a. nodes ?m1 b = layout_nodes (Suc a) rest b"
      using Cons.prems(1,3) by (simp add: nodes_free_other nodes_store_below)
    from walk_mono[OF walk_layout[OF this]]
    have w: "walk (length (up # rest)) (nodes ?m1) (start (Suc a) rest) = Some rest" by simp
    have f1: "\<forall>s. below a s \<and> s \<noteq> pos \<longrightarrow> load ?m1 s = load m s"
      using below_neq by (auto simp: load_free_other load_store_other)
    have f2: "\<forall>b<a. n_source (nodes ?m1 b) = n_source (nodes m b)
                          \<and> n_live (nodes ?m1 b) = n_live (nodes m b)"
      by (auto simp: nodes_free_other node_store_fields)
    show ?thesis using True p l1 w f1 f2 by auto
  next
    case False
    have step: "purge_ptr (Suc (length (up # rest))) m pos = purge_ptr (Suc (length rest)) m (Next_Of a)"
      using purge_ptr_step[OF ld live, of "Suc (length rest)"] here False
      by (simp del: purge_ptr.simps)
    have a1: "\<forall>b\<ge>Suc a. nodes m b = layout_nodes (Suc a) rest b"
      using Cons.prems(1) by simp
    have a2: "load m (Next_Of a) = Inr (start (Suc a) rest)" using here by simp
    have a3: "below (Suc a) (Next_Of a)" by simp
    note ih = Cons.IH[OF a1 a2 a3]
    show ?thesis
    proof (cases "purge_loop rest")
      case (Inr l)
      with ih step False show ?thesis by simp
    next
      case (Inl stopped)
      obtain f l where fl: "stopped = (f, l)" by (cases stopped)
      from ih Inl fl obtain m' v where r:
        "purge_ptr (Suc (length rest)) m (Next_Of a) = Some (Inl (f, m'))"
        "load m' (Next_Of a) = Inr v" "walk (length rest) (nodes m') v = Some l"
        "\<forall>s. below (Suc a) s \<and> s \<noteq> Next_Of a \<longrightarrow> load m' s = load m s"
        "\<forall>b<Suc a. n_source (nodes m' b) = n_source (nodes m b)
                          \<and> n_live (nodes m' b) = n_live (nodes m b)"
        by auto
      have lp: "load m' pos = Inr (Some a)"
        using r(4) Cons.prems(3) ld below_Suc below_neq by metis
      have na: "n_live (nodes m' a)" "n_source (nodes m' a) = up" using r(5) here by simp_all
      have nx: "n_next (nodes m' a) = v" using r(2) na(1) by simp
      have w: "walk (length (up # rest)) (nodes m') (Some a) = Some (up # l)"
        using na nx r(3) by simp
      have f1: "\<forall>s. below a s \<and> s \<noteq> pos \<longrightarrow> load m' s = load m s"
        using r(4) below_Suc below_neq by blast
      have f2: "\<forall>b<a. n_source (nodes m' b) = n_source (nodes m b)
                          \<and> n_live (nodes m' b) = n_live (nodes m b)"
        using r(5) by simp
      show ?thesis using Inl fl False step r(1) lp w f1 f2 by auto
    qed
  qed
qed

text \<open>
  On the laid-out list the loop ends within \<open>length srcs + 1\<close> iterations, and as
  \<open>purge_sources\<close> says: it returns with the store unchanged when no lease pointer
  is NULL, and otherwise it stops at the read of the freed node, with the head
  pointer reaching the list of the fault.
\<close>

lemma purge_ptr_refines:
  "case purge_sources srcs of
     Inr l \<Rightarrow> purge_ptr (Suc (length srcs)) (layout srcs) Head = Some (Inr (layout srcs))
               \<and> list_of (length srcs) (layout srcs) = Some l
   | Inl (f, l) \<Rightarrow>
       (\<exists>m'. purge_ptr (Suc (length srcs)) (layout srcs) Head = Some (Inl (f, m'))
          \<and> list_of (length srcs) m' = Some l)"
proof -
  have a: "\<forall>b\<ge>0. nodes (layout srcs) b = layout_nodes 0 srcs b"
    "load (layout srcs) Head = Inr (start 0 srcs)" "below 0 Head"
    by (simp_all add: layout_def start_def)
  note l = purge_ptr_loop[OF a]
  show ?thesis
  proof (cases "purge_loop srcs")
    case (Inr l')
    from purge_loop_Inr[OF Inr] have "l' = srcs" by simp
    moreover have "list_of (length srcs) (layout srcs) = Some srcs"
      using walk_layout[of 0 "nodes (layout srcs)" srcs]
      by (simp add: list_of_def layout_def start_def)
    ultimately show ?thesis using l Inr by (simp add: purge_sources_def)
  next
    case (Inl stopped)
    obtain f l' where fl: "stopped = (f, l')" by (cases stopped)
    from l Inl fl show ?thesis by (auto simp: purge_sources_def list_of_def)
  qed
qed


section \<open>Evaluation of the concrete passes\<close>

lemma update_kind_disabled: "\<not> enabled u \<Longrightarrow> update_kind run u = Inr (u, [])"
  by (simp add: update_kind_def)

lemma update_all_init:
  "ni_system_update_all run config devs (ni_system_updaters_init config st)
     = ni_system_update_all run config devs st"
  by (simp add: update_all_alt scanned_def)

lemma init_hostname_zero:
  "ni_system_updaters_init hostname_config state_zero = hostname_state hostname_updater0 []"
proof -
  have "\<And>k. updater_init_kind hostname_config k updater_zero
          = ((\<lambda>kind. updater_zero\<lparr>u_type := kind\<rparr>)(NI_ADDRCONF_UPDATE_HOSTNAME := hostname_updater0)) k"
  proof -
    fix k show "updater_init_kind hostname_config k updater_zero
          = ((\<lambda>kind. updater_zero\<lparr>u_type := kind\<rparr>)(NI_ADDRCONF_UPDATE_HOSTNAME := hostname_updater0)) k"
      by (cases k) (simp_all add: updater_init_kind_def updater_zero_def hostname_config_def
            hostname_extension_def hostname_updater0_def)
  qed
  then show ?thesis
    by (simp add: ni_system_updaters_init_def state_zero_def hostname_state_def fun_eq_iff)
qed

lemma init_hostname_state:
  "ni_system_updaters_init config (hostname_state u log) = hostname_state u log"
  by (simp add: ni_system_updaters_init_def hostname_state_def)

lemma cleared_hostname_state:
  "(\<lambda>kind. clear_leases (updaters (hostname_state u log) kind))
     = (\<lambda>kind. updater_zero\<lparr>u_type := kind\<rparr>)(NI_ADDRCONF_UPDATE_HOSTNAME := clear_leases u)"
  by (auto simp: hostname_state_def fun_eq_iff clear_leases_def updater_zero_def)

lemma scan_eth0:
  "scan_devices [eth0] ups
     = ups(NI_ADDRCONF_UPDATE_HOSTNAME := (ups NI_ADDRCONF_UPDATE_HOSTNAME)
         \<lparr>sources := add_source firmware_lease
            (add_source dhcp_lease (sources (ups NI_ADDRCONF_UPDATE_HOSTNAME)))\<rparr>)"
  by (simp add: scan_devices_def scan_lease_def can_update_hostname_def can_update_resolver_def
      ni_objectmodel_updater_add_source_def eth0_def dhcp_lease_def firmware_lease_def)

lemma scan_eth0_down: "scan_devices [eth0_down] ups = ups"
  by (simp add: scan_devices_def eth0_down_def)

lemma scanned_eth0:
  "(ni_system_updaters_init config (hostname_state u log))
      \<lparr>updaters := scanned config [eth0] (hostname_state u log)\<rparr>
   = hostname_state ((clear_leases u)\<lparr>sources :=
        add_source firmware_lease (add_source dhcp_lease (sources (clear_leases u)))\<rparr>) log"
  by (simp add: scanned_def init_hostname_state cleared_hostname_state scan_eth0)
     (simp add: hostname_state_def)

lemma scanned_eth0_down:
  "(ni_system_updaters_init config (hostname_state u log))
      \<lparr>updaters := scanned config [eth0_down] (hostname_state u log)\<rparr>
   = hostname_state (clear_leases u) log"
  by (simp add: scanned_def init_hostname_state cleared_hostname_state scan_eth0_down)
     (simp add: hostname_state_def)

lemma apply_kinds_hostname:
  assumes "update_kind run u = Inr (u', scripts)"
  shows "apply_kinds run update_kinds (hostname_state u log)
           = Inr (hostname_state u' (log @ map (Pair NI_ADDRCONF_UPDATE_HOSTNAME) scripts))"
proof -
  have z: "\<And>k. update_kind run (updater_zero\<lparr>u_type := k\<rparr>) = Inr (updater_zero\<lparr>u_type := k\<rparr>, [])"
    by (simp add: update_kind_disabled updater_zero_def)
  show ?thesis
    using assms
    by (simp add: update_kinds_def apply_kind_def hostname_state_def z fun_eq_iff)
qed

lemma apply_kinds_hostname_stops:
  assumes "update_kind run u = Inl (f, u')"
  shows "apply_kinds run update_kinds (hostname_state u log) = Inl (f, hostname_state u' log)"
  using assms
  by (simp add: update_kinds_def apply_kind_def hostname_state_def)

lemma pass_eth0:
  assumes "update_kind run ((clear_leases u)\<lparr>sources :=
        add_source firmware_lease (add_source dhcp_lease (sources (clear_leases u)))\<rparr>)
      = Inr (u', scripts)"
  shows "ni_system_update_all run config [eth0] (hostname_state u log)
           = Inr (True, hostname_state u' (log @ map (Pair NI_ADDRCONF_UPDATE_HOSTNAME) scripts))"
  by (simp add: update_all_alt scanned_eth0 apply_kinds_hostname[OF assms])

lemma pass_eth0_down:
  assumes "update_kind run (clear_leases u) = Inr (u', scripts)"
  shows "ni_system_update_all run config [eth0_down] (hostname_state u log)
           = Inr (True, hostname_state u' (log @ map (Pair NI_ADDRCONF_UPDATE_HOSTNAME) scripts))"
  by (simp add: update_all_alt scanned_eth0_down apply_kinds_hostname[OF assms])

lemma pass_eth0_down_stops:
  assumes "update_kind run (clear_leases u) = Inl (f, u')"
  shows "ni_system_update_all run config [eth0_down] (hostname_state u log)
           = Inl (f, hostname_state u' log)"
  by (simp add: update_all_alt scanned_eth0_down apply_kinds_hostname_stops[OF assms])

lemma weights:
  "s_weight (new_source dhcp_lease) = 51" "s_weight (new_source firmware_lease) = 100"
  "s_seqno (new_source dhcp_lease) = 1" "s_seqno (new_source firmware_lease) = 2"
  "s_lease (new_source dhcp_lease) = Some dhcp_lease"
  "s_lease (new_source firmware_lease) = Some firmware_lease"
  "l_seqno dhcp_lease = 1" "l_seqno firmware_lease = 2"
  by (simp_all add: new_source_def dhcp_lease_def firmware_lease_def)

lemma eth0_sources_new:
  "add_source firmware_lease (add_source dhcp_lease [])
     = [new_source dhcp_lease, new_source firmware_lease]"
  by (simp add: weights)


lemma select_scenario_A:
  "sources u = [new_source dhcp_lease, new_source firmware_lease] \<Longrightarrow>
   ni_objectmodel_updater_select_source u = Some (new_source firmware_lease)"
  by (simp add: ni_objectmodel_updater_select_source_def weights)

lemma update_kind_scenario_A:
  "update_kind always_succeeds
     (hostname_updater0\<lparr>sources := [new_source dhcp_lease, new_source firmware_lease]\<rparr>)
   = Inr (hostname_updater0\<lparr>sources := [new_source dhcp_lease, new_source firmware_lease],
              have_backup := True, enabled := False\<rparr>, [''hostname-backup''])"
  by (simp add: update_kind_def hostname_updater0_def purge_sources_def weights
     ni_objectmodel_updater_select_source_def
     ni_system_updater_install_def ni_system_updater_backup_def always_succeeds_def)

lemma update_kind_scenario_A_src:
  "update_kind ni_system_updater_run
     (hostname_updater0\<lparr>sources := [new_source dhcp_lease, new_source firmware_lease]\<rparr>)
   = Inr (hostname_updater0\<lparr>sources := [new_source dhcp_lease, new_source firmware_lease]\<rparr>,
      [''hostname-backup''])"
  by (simp add: update_kind_def hostname_updater0_def purge_sources_def weights
     ni_objectmodel_updater_select_source_def
     ni_system_updater_install_def ni_system_updater_backup_def ni_system_updater_run_def)

lemma update_kind_withdrawn:
  "update_kind run
     (clear_leases (hostname_updater0\<lparr>sources := [new_source dhcp_lease, new_source firmware_lease]\<rparr>))
   = Inl (Use_After_Free,
       hostname_updater0\<lparr>sources := [(new_source firmware_lease)\<lparr>s_lease := None\<rparr>]\<rparr>)"
  by (simp add: update_kind_def clear_leases_def hostname_updater0_def purge_sources_def)

lemma pass1:
  "ni_system_update_all always_succeeds hostname_config [eth0] state_zero
     = Inr (True, hostname_state
         (hostname_updater0\<lparr>sources := [new_source dhcp_lease, new_source firmware_lease],
              have_backup := True, enabled := False\<rparr>)
         [(NI_ADDRCONF_UPDATE_HOSTNAME, ''hostname-backup'')])"
proof -
  have c: "clear_leases hostname_updater0 = hostname_updater0"
    by (simp add: clear_leases_def hostname_updater0_def)
  have s: "sources hostname_updater0 = []" by (simp add: hostname_updater0_def)
  have "ni_system_update_all always_succeeds hostname_config [eth0] (hostname_state hostname_updater0 [])
     = Inr (True, hostname_state
         (hostname_updater0\<lparr>sources := [new_source dhcp_lease, new_source firmware_lease],
              have_backup := True, enabled := False\<rparr>)
         ([] @ map (Pair NI_ADDRCONF_UPDATE_HOSTNAME) [''hostname-backup'']))"
    by (rule pass_eth0)
       (simp add: c s eth0_sources_new update_kind_scenario_A del: add_source.simps)
  then show ?thesis
    using update_all_init[of always_succeeds hostname_config "[eth0]" state_zero]
    by (simp add: init_hostname_zero)
qed

lemma src_pass1:
  "ni_system_update_all ni_system_updater_run hostname_config [eth0] state_zero
     = Inr (True, hostname_state
         (hostname_updater0\<lparr>sources := [new_source dhcp_lease, new_source firmware_lease]\<rparr>)
         [(NI_ADDRCONF_UPDATE_HOSTNAME, ''hostname-backup'')])"
proof -
  have c: "clear_leases hostname_updater0 = hostname_updater0"
    by (simp add: clear_leases_def hostname_updater0_def)
  have s: "sources hostname_updater0 = []" by (simp add: hostname_updater0_def)
  have "ni_system_update_all ni_system_updater_run hostname_config [eth0]
          (hostname_state hostname_updater0 [])
     = Inr (True, hostname_state
         (hostname_updater0\<lparr>sources := [new_source dhcp_lease, new_source firmware_lease]\<rparr>)
         ([] @ map (Pair NI_ADDRCONF_UPDATE_HOSTNAME) [''hostname-backup'']))"
    by (rule pass_eth0)
       (simp add: c s eth0_sources_new update_kind_scenario_A_src del: add_source.simps)
  then show ?thesis
    using update_all_init[of ni_system_updater_run hostname_config "[eth0]" state_zero]
    by (simp add: init_hostname_zero)
qed


lemma src_pass_withdrawn:
  "ni_system_update_all run hostname_config [eth0_down]
     (hostname_state
         (hostname_updater0\<lparr>sources := [new_source dhcp_lease, new_source firmware_lease]\<rparr>) log)
     = Inl (Use_After_Free, hostname_state
         (hostname_updater0\<lparr>sources := [(new_source firmware_lease)\<lparr>s_lease := None\<rparr>]\<rparr>) log)"
  by (rule pass_eth0_down_stops) (rule update_kind_withdrawn)

lemma pass_projections [simp]:
  "pass_state (Inr (v, st)) = st" "pass_state (Inl (f, st)) = st"
  "pass_result (Inr (v, st)) = Inr v" "pass_result (Inl (f, st)) = Inl f"
  by (simp_all add: pass_state_def pass_result_def)

lemma hostname_state_fields [simp]:
  "updaters (hostname_state u log) NI_ADDRCONF_UPDATE_HOSTNAME = u"
  "invoked (hostname_state u log) = log"
  "initialized (hostname_state u log)"
  by (simp_all add: hostname_state_def)

lemma update_from_lease_alt:
  "pass_result (ni_system_update_from_lease run config devs lease st)
     = (case pass_result (ni_system_update_all run config devs st) of
          Inl f \<Rightarrow> Inl f | Inr ok \<Rightarrow> Inr (if ok then 0 else - 1))"
  by (auto simp: ni_system_update_from_lease_def pass_result_def split: sum.splits prod.splits)

lemma install_never_succeeds:
  "fst (ni_system_updater_install run u lease) = False \<and>
   u_seqno (fst (snd (ni_system_updater_install run u lease))) = u_seqno u \<and>
   set (snd (snd (ni_system_updater_install run u lease))) \<subseteq> set_option (proc_backup u)"
  by (cases "u_type u")
     (auto simp: ni_system_updater_install_def ni_system_updater_backup_def split: option.splits)

text \<open>A pass that returns, returns true; the convenience call then returns 0.\<close>

lemma returned_pass_is_true:
  "ni_system_update_all run config devs st = Inr (ok, st') \<Longrightarrow> ok = True"
  by (auto simp: update_all_alt split: sum.splits)

lemma returned_from_lease_is_0:
  "ni_system_update_from_lease run config devs lease st = Inr (rv, st') \<Longrightarrow> rv = 0"
  by (auto simp: ni_system_update_from_lease_def dest: returned_pass_is_true
      split: sum.splits prod.splits if_splits)

text \<open>
  The loop body returns for a kind exactly when the kind is disabled or none of
  its Sources has a NULL lease pointer.
\<close>

lemma update_kind_Inr_iff:
  "(\<exists>r. update_kind run u = Inr r) = (enabled u \<longrightarrow> (\<forall>s\<in>set (sources u). s_lease s \<noteq> None))"
proof (cases "enabled u")
  case False
  then show ?thesis by (simp add: update_kind_def)
next
  case True
  show ?thesis
  proof (cases "\<forall>s\<in>set (sources u). s_lease s \<noteq> None")
    case True
    from purge_loop_live[OF True] \<open>enabled u\<close> True show ?thesis
      by (auto simp: update_kind_def purge_sources_def Let_def split: option.splits prod.splits)
  next
    case False
    then obtain s where "s \<in> set (sources u)" "s_lease s = None" by auto
    from purge_loop_stale[OF this(2,1)] \<open>enabled u\<close> False show ?thesis
      by (auto simp: update_kind_def purge_sources_def)
  qed
qed


section \<open>Install and the winning Source (C1)\<close>

text \<open>
  C1.  The claim: when a pass selects a winning Source whose sequence number differs
  from the installed one and the backup step succeeds, the install script is run
  with the winning lease's payload and the installed sequence number becomes the
  winner's; in Scenario A install runs once with the firmware hostname.  What
  \<^verbatim>\<open>ni_system_updater_install\<close> does in Scenario A, with an executor that succeeds:
  the pass returns true, the two Sources weigh 51 and 100, the firmware Source wins
  and the backup script is run, but no install script is handed to the executor,
  the installed sequence number stays 0 and the hostname kind is disabled.  The
  same happens with the executor of the source when the configuration names an
  install script only.
\<close>

theorem scenario_A_install_disables_hostname:
  "pass_result (ni_system_update_all always_succeeds hostname_config [eth0] state_zero) = Inr True
   \<and> map s_weight (sources (updaters (pass_state (ni_system_update_all always_succeeds hostname_config [eth0] state_zero)) NI_ADDRCONF_UPDATE_HOSTNAME)) = [51, 100]
   \<and> ni_objectmodel_updater_select_source (updaters (pass_state (ni_system_update_all always_succeeds hostname_config [eth0] state_zero)) NI_ADDRCONF_UPDATE_HOSTNAME)
        = Some (new_source firmware_lease)
   \<and> have_backup (updaters (pass_state (ni_system_update_all always_succeeds hostname_config [eth0] state_zero)) NI_ADDRCONF_UPDATE_HOSTNAME) = True
   \<and> invoked (pass_state (ni_system_update_all always_succeeds hostname_config [eth0] state_zero)) = [(NI_ADDRCONF_UPDATE_HOSTNAME, ''hostname-backup'')]
   \<and> u_seqno (updaters (pass_state (ni_system_update_all always_succeeds hostname_config [eth0] state_zero)) NI_ADDRCONF_UPDATE_HOSTNAME) = 0
   \<and> enabled (updaters (pass_state (ni_system_update_all always_succeeds hostname_config [eth0] state_zero)) NI_ADDRCONF_UPDATE_HOSTNAME) = False
   \<and> ni_system_updater_install ni_system_updater_run
        (hostname_updater0\<lparr>proc_backup := None, proc_restore := None\<rparr>) (Some firmware_lease)
      = (False, hostname_updater0\<lparr>proc_backup := None, proc_restore := None, enabled := False\<rparr>, [])"
  by (simp add: pass1 select_scenario_A weights)
     (simp add: hostname_updater0_def ni_system_updater_install_def ni_system_updater_backup_def)

section \<open>Selection (C2)\<close>

text \<open>
  C2, as amended.  \<^verbatim>\<open>ni_objectmodel_updater_select_source\<close> does not read the lease
  reference of a Source.  It returns none exactly when the Source list is empty;
  otherwise it returns the earliest Source of maximal weight among all Sources
  of the list: every Source before it weighs strictly less and no Source after
  it weighs more.
\<close>

theorem select_source_first_max:
  "(ni_objectmodel_updater_select_source updater = None) = (sources updater = []) \<and>
   (ni_objectmodel_updater_select_source updater = Some best \<longrightarrow>
      (\<exists>pre post. sources updater = pre @ best # post
         \<and> (\<forall>s\<in>set pre. s_weight s < s_weight best)
         \<and> (\<forall>s\<in>set post. s_weight s \<le> s_weight best)))"
proof (cases "sources updater")
  case Nil
  then show ?thesis by (simp add: ni_objectmodel_updater_select_source_def)
next
  case (Cons x xs)
  have none: "(ni_objectmodel_updater_select_source updater = None) = (sources updater = [])"
    by (simp add: ni_objectmodel_updater_select_source_def select_loop_None)
  have "ni_objectmodel_updater_select_source updater = Some best \<Longrightarrow>
      (\<exists>pre post. sources updater = pre @ best # post
         \<and> (\<forall>s\<in>set pre. s_weight s < s_weight best)
         \<and> (\<forall>s\<in>set post. s_weight s \<le> s_weight best))"
  proof -
    assume "ni_objectmodel_updater_select_source updater = Some best"
    then have "select_loop (Some x) xs = Some best"
      using Cons by (simp add: ni_objectmodel_updater_select_source_def)
    from select_loop_first_max[OF this, of "[]" "[]"] show ?thesis using Cons by simp
  qed
  with none show ?thesis by blast
qed

theorem select_source_first_max_witness:
  "ni_objectmodel_updater_select_source
      (updater_zero\<lparr>sources := [stale_source, stale_source2, new_source firmware_lease]\<rparr>)
     = Some stale_source2
   \<and> (\<exists>pre post. [stale_source, stale_source2, new_source firmware_lease] = pre @ stale_source2 # post
         \<and> (\<forall>s\<in>set pre. s_weight s < s_weight stale_source2)
         \<and> (\<forall>s\<in>set post. s_weight s \<le> s_weight stale_source2))"
proof -
  have sel: "ni_objectmodel_updater_select_source
      (updater_zero\<lparr>sources := [stale_source, stale_source2, new_source firmware_lease]\<rparr>)
     = Some stale_source2"
    by (simp add: ni_objectmodel_updater_select_source_def stale_source_def stale_source2_def weights)
  from select_source_first_max
         [of "updater_zero\<lparr>sources := [stale_source, stale_source2, new_source firmware_lease]\<rparr>"
             stale_source2] sel
  show ?thesis by simp
qed

text \<open>
  The claim as stated fails on a list whose only Source has an empty lease
  reference: that Source is returned.
\<close>

theorem select_source_stale_counterexample:
  "ni_objectmodel_updater_select_source (updater_zero\<lparr>sources := [stale_source]\<rparr>)
     = Some stale_source
   \<and> s_lease stale_source = None"
  by (simp add: ni_objectmodel_updater_select_source_def stale_source_def)


section \<open>Withdrawn leases (C3)\<close>

text \<open>
  C3.  The claim: after a pass in which no current lease qualifies for an enabled
  kind, the kind's Source list is empty, for every prior list length, and a backup
  that exists is restored exactly once.  What the code does, with the executor of
  the source: the first pass sees the DHCP and the firmware lease, returns true and
  leaves the hostname kind enabled with the Sources 1 and 2.  The second pass sees
  no lease; its purge loop unlinks and frees the first Source and then reads the
  freed node, so the pass does not return: at that point the Source list still
  holds the Source of the firmware lease, and no script has been run in this
  pass (the one earlier backup run is that of the first pass).  On an updater that
  has a backup the loop stops the same way, with two stale Sources and with one,
  before the restore step is reached.  On the store, the loop stops with the head
  pointer at the second node and the first node freed.
\<close>

theorem two_stale_sources_survive_purge:
  "pass_result (ni_system_update_all ni_system_updater_run hostname_config [eth0] state_zero) = Inr True
   \<and> map s_seqno (sources (updaters (pass_state (ni_system_update_all ni_system_updater_run hostname_config [eth0] state_zero)) NI_ADDRCONF_UPDATE_HOSTNAME)) = [1, 2]
   \<and> enabled (updaters (pass_state (ni_system_update_all ni_system_updater_run hostname_config [eth0] state_zero)) NI_ADDRCONF_UPDATE_HOSTNAME) = True
   \<and> pass_result (ni_system_update_all ni_system_updater_run hostname_config [eth0_down]
        (pass_state (ni_system_update_all ni_system_updater_run hostname_config [eth0] state_zero))) = Inl Use_After_Free
   \<and> sources (updaters (pass_state (ni_system_update_all ni_system_updater_run hostname_config [eth0_down]
        (pass_state (ni_system_update_all ni_system_updater_run hostname_config [eth0] state_zero)))) NI_ADDRCONF_UPDATE_HOSTNAME) = [(new_source firmware_lease)\<lparr>s_lease := None\<rparr>]
   \<and> invoked (pass_state (ni_system_update_all ni_system_updater_run hostname_config [eth0_down]
        (pass_state (ni_system_update_all ni_system_updater_run hostname_config [eth0] state_zero)))) = [(NI_ADDRCONF_UPDATE_HOSTNAME, ''hostname-backup'')]
   \<and> update_kind always_succeeds (backed_up_updater\<lparr>sources := [stale_source, stale_source2]\<rparr>)
      = Inl (Use_After_Free, backed_up_updater\<lparr>sources := [stale_source2]\<rparr>)
   \<and> update_kind always_succeeds (backed_up_updater\<lparr>sources := [stale_source]\<rparr>)
      = Inl (Use_After_Free, backed_up_updater\<lparr>sources := []\<rparr>)
   \<and> map_option isl (purge_ptr 3 (layout [stale_source, stale_source2]) Head) = Some True
   \<and> map_option (\<lambda>r. head (store_of r)) (purge_ptr 3 (layout [stale_source, stale_source2]) Head)
      = Some (Some 1)
   \<and> map_option (\<lambda>r. n_live (nodes (store_of r) 0))
        (purge_ptr 3 (layout [stale_source, stale_source2]) Head) = Some False
   \<and> map_option (\<lambda>r. list_of 2 (store_of r))
        (purge_ptr 3 (layout [stale_source, stale_source2]) Head) = Some (Some [stale_source2])"
proof -
  have a: "update_kind always_succeeds (backed_up_updater\<lparr>sources := [stale_source, stale_source2]\<rparr>)
      = Inl (Use_After_Free, backed_up_updater\<lparr>sources := [stale_source2]\<rparr>)"
    "update_kind always_succeeds (backed_up_updater\<lparr>sources := [stale_source]\<rparr>)
      = Inl (Use_After_Free, backed_up_updater\<lparr>sources := []\<rparr>)"
    by (simp_all add: update_kind_def backed_up_updater_def stale_source_def stale_source2_def
        purge_sources_def)
  have three: "(3::nat) = Suc (Suc (Suc 0))" and two: "(2::nat) = Suc (Suc 0)" by simp_all
  have p: "purge_ptr 3 (layout [stale_source, stale_source2]) Head
      = Some (Inl (Use_After_Free, free (store_ptr (layout [stale_source, stale_source2]) Head (Some 1)) 0))"
    unfolding three by (simp add: layout_def stale_source_def free_def)
  have b: "map_option isl (purge_ptr 3 (layout [stale_source, stale_source2]) Head) = Some True"
    "map_option (\<lambda>r. head (store_of r)) (purge_ptr 3 (layout [stale_source, stale_source2]) Head)
      = Some (Some 1)"
    "map_option (\<lambda>r. n_live (nodes (store_of r) 0))
        (purge_ptr 3 (layout [stale_source, stale_source2]) Head) = Some False"
    by (simp_all add: p store_of_def free_def)
  have c: "map_option (\<lambda>r. list_of 2 (store_of r))
        (purge_ptr 3 (layout [stale_source, stale_source2]) Head) = Some (Some [stale_source2])"
    unfolding p two by (simp add: store_of_def list_of_def free_def layout_def)
  show ?thesis
    using a b c by (simp add: src_pass1 src_pass_withdrawn weights) (simp add: hostname_updater0_def)
qed

section \<open>Restore (C4)\<close>

text \<open>
  C4, as amended.  \<^verbatim>\<open>ni_system_updater_restore\<close> succeeds without running a script
  when there is no backup (or no restore script).  Otherwise it runs the restore
  script: on success it clears \<open>have_backup\<close> and leaves every other field of the
  updater, the installed sequence number included, as it was; on failure it
  returns failure and leaves the updater as it was, \<open>have_backup\<close> still set, so
  that the next pass tries again.
\<close>

theorem restore_outcomes:
  "(\<not> have_backup u \<longrightarrow> ni_system_updater_restore run u = (True, u, [])) \<and>
   (have_backup u \<and> proc_restore u = None \<longrightarrow> ni_system_updater_restore run u = (True, u, [])) \<and>
   (have_backup u \<and> proc_restore u = Some p \<and> run p None \<longrightarrow>
      ni_system_updater_restore run u = (True, u\<lparr>have_backup := False\<rparr>, [p]) \<and>
      u_seqno (fst (snd (ni_system_updater_restore run u))) = u_seqno u) \<and>
   (have_backup u \<and> proc_restore u = Some p \<and> \<not> run p None \<longrightarrow>
      ni_system_updater_restore run u = (False, u, [p]))"
  by (simp add: ni_system_updater_restore_def)

theorem restore_outcomes_witness:
  "ni_system_updater_restore always_succeeds hostname_updater0 = (True, hostname_updater0, []) \<and>
   ni_system_updater_restore always_succeeds (backed_up_updater\<lparr>proc_restore := None\<rparr>)
     = (True, backed_up_updater\<lparr>proc_restore := None\<rparr>, []) \<and>
   ni_system_updater_restore always_succeeds backed_up_updater
     = (True, backed_up_updater\<lparr>have_backup := False\<rparr>, [''hostname-restore'']) \<and>
   u_seqno (fst (snd (ni_system_updater_restore always_succeeds backed_up_updater))) = 5 \<and>
   ni_system_updater_restore ni_system_updater_run backed_up_updater
     = (False, backed_up_updater, [''hostname-restore''])"
  using restore_outcomes[of hostname_updater0 always_succeeds "''hostname-restore''"]
    restore_outcomes[of "backed_up_updater\<lparr>proc_restore := None\<rparr>" always_succeeds "''hostname-restore''"]
    restore_outcomes[of backed_up_updater always_succeeds "''hostname-restore''"]
    restore_outcomes[of backed_up_updater ni_system_updater_run "''hostname-restore''"]
  by (simp add: hostname_updater0_def backed_up_updater_def always_succeeds_def
      ni_system_updater_run_def)

text \<open>
  The claim as stated fails where the restore script succeeds on an updater with
  installed sequence number 5: the sequence number is still 5, not 0.
\<close>

theorem restore_resets_seqno_counterexample:
  "fst (ni_system_updater_restore always_succeeds backed_up_updater) = True
   \<and> have_backup (fst (snd (ni_system_updater_restore always_succeeds backed_up_updater))) = False
   \<and> u_seqno (fst (snd (ni_system_updater_restore always_succeeds backed_up_updater))) \<noteq> 0"
  by (simp add: ni_system_updater_restore_def backed_up_updater_def always_succeeds_def)


section \<open>A failing backup (C5)\<close>



section \<open>Registration is idempotent per sequence number (C6)\<close>

text \<open>
  C6.  \<^verbatim>\<open>ni_objectmodel_updater_add_source\<close> changes the Source list of its kind only,
  by \<open>add_source\<close>.  Any sequence of calls with leases that share one sequence
  number makes the list longer by at most one entry.  A call whose lease has the
  sequence number of a Source of the list sets the lease reference of the first
  such Source and leaves the rest of the list, its length included, as it was.
  Sequence numbers that are pairwise distinct in the list stay so.
\<close>

theorem add_source_idempotent:
  "sources (ni_objectmodel_updater_add_source kind lease ups kind)
      = add_source lease (sources (ups kind))
   \<and> ((\<forall>l\<in>set ls. l_seqno l = n) \<longrightarrow>
         length (fold add_source ls srcs) \<le> Suc (length srcs))
   \<and> ((\<forall>s\<in>set pre. s_seqno s \<noteq> l_seqno lease) \<and> s_seqno up = l_seqno lease \<longrightarrow>
         add_source lease (pre @ up # post) = pre @ up\<lparr>s_lease := Some lease\<rparr> # post)
   \<and> (l_seqno lease \<in> s_seqno ` set srcs \<longrightarrow>
         length (add_source lease srcs) = length srcs)
   \<and> (distinct (map s_seqno srcs) \<longrightarrow> distinct (map s_seqno (add_source lease srcs)))"
  using fold_add_source_grows_once[of ls n srcs] add_source_refresh[of pre lease up post]
    add_source_present[of lease srcs] add_source_distinct[of srcs lease]
  by (simp add: ni_objectmodel_updater_add_source_def)

theorem add_source_idempotent_witness:
  "l_seqno dhcp_lease = 1 \<and> l_seqno (dhcp_lease\<lparr>l_hostname := Some ''renamed''\<rparr>) = 1
   \<and> length (fold add_source [dhcp_lease, dhcp_lease\<lparr>l_hostname := Some ''renamed''\<rparr>, dhcp_lease]
        [stale_source2, stale_source]) \<le> Suc (length [stale_source2, stale_source])
   \<and> add_source dhcp_lease ([stale_source2] @ stale_source # [])
        = [stale_source2] @ stale_source\<lparr>s_lease := Some dhcp_lease\<rparr> # []
   \<and> length (add_source dhcp_lease ([stale_source2] @ stale_source # []))
        = length ([stale_source2] @ stale_source # [])
   \<and> distinct (map s_seqno (add_source dhcp_lease ([stale_source2] @ stale_source # [])))"
proof -
  let ?ls = "[dhcp_lease, dhcp_lease\<lparr>l_hostname := Some ''renamed''\<rparr>, dhcp_lease]"
  have h1: "\<forall>l\<in>set ?ls. l_seqno l = 1"
    by (simp add: dhcp_lease_def)
  have h2: "(\<forall>s\<in>set [stale_source2]. s_seqno s \<noteq> l_seqno dhcp_lease)
              \<and> s_seqno stale_source = l_seqno dhcp_lease"
    by (simp add: dhcp_lease_def stale_source_def stale_source2_def)
  have h3: "l_seqno dhcp_lease \<in> s_seqno ` set ([stale_source2] @ stale_source # [])"
    by (simp add: dhcp_lease_def stale_source_def stale_source2_def)
  have h4: "distinct (map s_seqno ([stale_source2] @ stale_source # []))"
    by (simp add: stale_source_def stale_source2_def)
  note t = add_source_idempotent
         [of NI_ADDRCONF_UPDATE_HOSTNAME dhcp_lease "\<lambda>k. updater_zero" ?ls 1
             "[stale_source2] @ stale_source # []" "[stale_source2]" stale_source "[]"]
  from t h1 have a: "length (fold add_source ?ls ([stale_source2] @ stale_source # []))
        \<le> Suc (length ([stale_source2] @ stale_source # []))" by blast
  from t h2 have b: "add_source dhcp_lease ([stale_source2] @ stale_source # [])
        = [stale_source2] @ stale_source\<lparr>s_lease := Some dhcp_lease\<rparr> # []" by blast
  from t h3 have c: "length (add_source dhcp_lease ([stale_source2] @ stale_source # []))
        = length ([stale_source2] @ stale_source # [])" by blast
  from t h4 have d: "distinct (map s_seqno (add_source dhcp_lease ([stale_source2] @ stale_source # [])))"
    by blast
  from a have a': "length (fold add_source ?ls [stale_source2, stale_source])
        \<le> Suc (length [stale_source2, stale_source])" by simp
  have h0: "l_seqno dhcp_lease = 1 \<and> l_seqno (dhcp_lease\<lparr>l_hostname := Some ''renamed''\<rparr>) = 1"
    by (simp add: dhcp_lease_def)
  from h0 a' b c d show ?thesis by blast
qed


section \<open>The weight of a new Source (C7)\<close>

text \<open>
  C7, as amended.  For a lease whose sequence number no Source of the list has,
  \<^verbatim>\<open>ni_objectmodel_updater_add_source\<close> appends one Source, whose weight is 10 times
  the table entry of the lease's protocol (5 for DHCP, 10 for firmware, iBFT, and 0
  for any other protocol; a protocol outside the table contributes 0 as well) plus
  1 if the address family is IPv4 and plus 0 otherwise.  Hence such a DHCP lease
  over IPv4 weighs 51, and such a firmware lease weighs 101 over IPv4 and 100
  otherwise.  For a lease whose sequence number a Source of the list has, no weight
  is computed: every Source keeps the weight it has.
\<close>

theorem add_source_weight:
  "((\<forall>s\<in>set srcs. s_seqno s \<noteq> l_seqno lease) \<longrightarrow>
      (\<exists>up. add_source lease srcs = srcs @ [up]
         \<and> s_seqno up = l_seqno lease \<and> s_lease up = Some lease
         \<and> s_weight up = 10 * addrconf_weight (l_type lease)
                           + (if l_family lease = AF_INET then 1 else 0)
         \<and> (l_type lease = NI_ADDRCONF_DHCP \<and> l_family lease = AF_INET \<longrightarrow> s_weight up = 51)
         \<and> (l_type lease = NI_ADDRCONF_IBFT \<longrightarrow>
              s_weight up = (if l_family lease = AF_INET then 101 else 100))
         \<and> (l_type lease = NI_ADDRCONF_OTHER \<or> l_type lease = NI_ADDRCONF_INVALID \<longrightarrow>
              s_weight up = (if l_family lease = AF_INET then 1 else 0))))
   \<and> (l_seqno lease \<in> s_seqno ` set srcs \<longrightarrow>
        map s_weight (add_source lease srcs) = map s_weight srcs
        \<and> length (add_source lease srcs) = length srcs)
   \<and> addrconf_weight NI_ADDRCONF_DHCP = 5 \<and> addrconf_weight NI_ADDRCONF_IBFT = 10
   \<and> addrconf_weight NI_ADDRCONF_OTHER = 0 \<and> addrconf_weight NI_ADDRCONF_INVALID = 0"
proof -
  have new: "(\<forall>s\<in>set srcs. s_seqno s \<noteq> l_seqno lease) \<Longrightarrow>
      (\<exists>up. add_source lease srcs = srcs @ [up]
         \<and> s_seqno up = l_seqno lease \<and> s_lease up = Some lease
         \<and> s_weight up = 10 * addrconf_weight (l_type lease)
                           + (if l_family lease = AF_INET then 1 else 0)
         \<and> (l_type lease = NI_ADDRCONF_DHCP \<and> l_family lease = AF_INET \<longrightarrow> s_weight up = 51)
         \<and> (l_type lease = NI_ADDRCONF_IBFT \<longrightarrow>
              s_weight up = (if l_family lease = AF_INET then 101 else 100))
         \<and> (l_type lease = NI_ADDRCONF_OTHER \<or> l_type lease = NI_ADDRCONF_INVALID \<longrightarrow>
              s_weight up = (if l_family lease = AF_INET then 1 else 0)))"
  proof -
    assume "\<forall>s\<in>set srcs. s_seqno s \<noteq> l_seqno lease"
    then have "add_source lease srcs = srcs @ [new_source lease]" by (rule add_source_append)
    moreover have "s_weight (new_source lease) = 10 * addrconf_weight (l_type lease)
                       + (if l_family lease = AF_INET then 1 else 0)"
      by (cases "l_type lease") (simp_all add: new_source_def)
    ultimately show ?thesis by (auto simp: new_source_def)
  qed
  have old: "l_seqno lease \<in> s_seqno ` set srcs \<Longrightarrow>
        map s_weight (add_source lease srcs) = map s_weight srcs
        \<and> length (add_source lease srcs) = length srcs"
    by (simp add: add_source_keeps_weights add_source_present)
  from new old show ?thesis by simp
qed

theorem add_source_weight_witness:
  "s_seqno (new_source dhcp_lease) \<noteq> l_seqno firmware_ipv4_lease
   \<and> (\<exists>up. add_source firmware_ipv4_lease [new_source dhcp_lease] = [new_source dhcp_lease] @ [up]
        \<and> s_weight up = 101)
   \<and> (\<exists>up. add_source dhcp_lease [] = [] @ [up] \<and> s_weight up = 51)
   \<and> (\<exists>up. add_source firmware_lease [] = [] @ [up] \<and> s_weight up = 100)
   \<and> l_seqno firmware_lease_seqno1 = s_seqno (new_source dhcp_lease)
   \<and> map s_weight (add_source firmware_lease_seqno1 [new_source dhcp_lease]) = [51]
   \<and> length (add_source firmware_lease_seqno1 [new_source dhcp_lease]) = 1"
proof -
  have h: "\<forall>s\<in>set [new_source dhcp_lease]. s_seqno s \<noteq> l_seqno firmware_ipv4_lease"
    by (simp add: weights firmware_ipv4_lease_def firmware_lease_def)
  have e: "\<forall>s\<in>set ([]::ni_updater_source list). s_seqno s \<noteq> l_seqno dhcp_lease"
    "\<forall>s\<in>set ([]::ni_updater_source list). s_seqno s \<noteq> l_seqno firmware_lease" by simp_all
  have t: "l_type firmware_ipv4_lease = NI_ADDRCONF_IBFT" "l_family firmware_ipv4_lease = AF_INET"
    "l_type dhcp_lease = NI_ADDRCONF_DHCP" "l_family dhcp_lease = AF_INET"
    "l_type firmware_lease = NI_ADDRCONF_IBFT" "l_family firmware_lease = AF_INET6"
    by (simp_all add: firmware_ipv4_lease_def firmware_lease_def dhcp_lease_def)
  from add_source_weight[of "[new_source dhcp_lease]" firmware_ipv4_lease] h t
  have a: "\<exists>up. add_source firmware_ipv4_lease [new_source dhcp_lease] = [new_source dhcp_lease] @ [up]
        \<and> s_weight up = 101" by auto
  from add_source_weight[of "[]" dhcp_lease] e t
  have b: "\<exists>up. add_source dhcp_lease [] = [] @ [up] \<and> s_weight up = 51" by auto
  from add_source_weight[of "[]" firmware_lease] e t
  have c: "\<exists>up. add_source firmware_lease [] = [] @ [up] \<and> s_weight up = 100" by auto
  have s1: "l_seqno firmware_lease_seqno1 = s_seqno (new_source dhcp_lease)"
    by (simp add: firmware_lease_seqno1_def weights)
  then have m: "l_seqno firmware_lease_seqno1 \<in> s_seqno ` set [new_source dhcp_lease]" by simp
  from add_source_weight[of "[new_source dhcp_lease]" firmware_lease_seqno1] m
  have d: "map s_weight (add_source firmware_lease_seqno1 [new_source dhcp_lease])
             = map s_weight [new_source dhcp_lease]"
    "length (add_source firmware_lease_seqno1 [new_source dhcp_lease])
             = length [new_source dhcp_lease]" by blast+
  have h0: "s_seqno (new_source dhcp_lease) \<noteq> l_seqno firmware_ipv4_lease"
    using h by simp
  from d have d': "map s_weight (add_source firmware_lease_seqno1 [new_source dhcp_lease]) = [51]"
    "length (add_source firmware_lease_seqno1 [new_source dhcp_lease]) = 1"
    by (simp_all add: weights del: add_source.simps)
  show ?thesis using h0 a b c s1 d' by blast
qed

text \<open>
  The claim as stated fails for a firmware lease over IPv4, whose new Source weighs
  101 and not 100, and for a firmware lease that carries the sequence number of a
  Source made from a DHCP lease over IPv4: the lease is accepted and the Source
  keeps the weight 51.
\<close>

theorem firmware_ipv4_weight_counterexample:
  "l_type firmware_ipv4_lease = NI_ADDRCONF_IBFT
   \<and> map s_weight (add_source firmware_ipv4_lease []) = [101]
   \<and> map s_weight (add_source firmware_ipv4_lease []) \<noteq> [100]
   \<and> l_type firmware_lease_seqno1 = NI_ADDRCONF_IBFT
   \<and> l_family firmware_lease_seqno1 = AF_INET6
   \<and> add_source firmware_lease_seqno1 [new_source dhcp_lease]
        = [\<lparr> s_seqno = 1, s_weight = 51, s_lease = Some firmware_lease_seqno1 \<rparr>]"
  by (simp add: firmware_ipv4_lease_def firmware_lease_seqno1_def firmware_lease_def
      dhcp_lease_def new_source_def)

section \<open>The acquire method (C8)\<close>

text \<open>
  C8, as amended.  \<^verbatim>\<open>acquire\<close> called without arguments fails with the InvalidArgs
  error and does not call \<^verbatim>\<open>ni_dhcp_acquire\<close>.  Called with arguments, it fails
  when the request cannot be extracted from the first argument, with the error
  that the extraction left, again before \<^verbatim>\<open>ni_dhcp_acquire\<close> is called.  When the
  request is extracted and \<^verbatim>\<open>ni_dhcp_acquire\<close> returns a negative number, it fails
  with the Failed error, whose message is made of the device name and the reason;
  otherwise it returns true, after the one call of \<^verbatim>\<open>ni_dhcp_acquire\<close> and without
  setting an error.
\<close>

theorem acquire_svc_outcomes:
  "(argv = [] \<longrightarrow>
      wicked_dbus_dhcp4_acquire_svc set_request acquire strerror dev argv
        = \<lparr> ret = False,
            error = Some \<lparr> e_name = DBUS_ERROR_INVALID_ARGS,
              e_message = ''Missing arguments in __wicked_dbus_dhcp4_acquire_svc'' \<rparr>,
            calls = [] \<rparr>) \<and>
   (argv = arg # more_args
      \<and> set_request (ni_addrconf_request_new NI_ADDRCONF_DHCP AF_INET) arg = Inl err \<longrightarrow>
      wicked_dbus_dhcp4_acquire_svc set_request acquire strerror dev argv
        = \<lparr> ret = False, error = err, calls = [] \<rparr>) \<and>
   (argv = arg # more_args
      \<and> set_request (ni_addrconf_request_new NI_ADDRCONF_DHCP AF_INET) arg = Inr req
      \<and> acquire dev req < 0 \<longrightarrow>
      wicked_dbus_dhcp4_acquire_svc set_request acquire strerror dev argv
        = \<lparr> ret = False,
            error = Some \<lparr> e_name = DBUS_ERROR_FAILED,
              e_message = ''Cannot configure interface '' @ ifname dev @ '': ''
                            @ strerror (acquire dev req) \<rparr>,
            calls = [Acquire_Call dev req] \<rparr>) \<and>
   (argv = arg # more_args
      \<and> set_request (ni_addrconf_request_new NI_ADDRCONF_DHCP AF_INET) arg = Inr req
      \<and> \<not> acquire dev req < 0 \<longrightarrow>
      wicked_dbus_dhcp4_acquire_svc set_request acquire strerror dev argv
        = \<lparr> ret = True, error = None, calls = [Acquire_Call dev req] \<rparr>)"
  by (simp add: wicked_dbus_dhcp4_acquire_svc_def Let_def)

theorem acquire_svc_outcomes_witness:
  "ret (wicked_dbus_dhcp4_acquire_svc dict_request (\<lambda>d r. 0) (\<lambda>rv. ''no carrier'') dhcp_eth0 [])
     = False
   \<and> wicked_dbus_dhcp4_acquire_svc dict_request (\<lambda>d r. 0) (\<lambda>rv. ''no carrier'') dhcp_eth0
       [DBUS_STRING ''x'']
     = \<lparr> ret = False,
         error = Some \<lparr> e_name = DBUS_ERROR_INVALID_ARGS,
           e_message = ''Cannot extract addrconf request from property dict'' \<rparr>,
         calls = [] \<rparr>
   \<and> wicked_dbus_dhcp4_acquire_svc dict_request (\<lambda>d r. - 1) (\<lambda>rv. ''no carrier'') dhcp_eth0
       [DBUS_DICT []]
     = \<lparr> ret = False,
         error = Some \<lparr> e_name = DBUS_ERROR_FAILED,
           e_message = ''Cannot configure interface eth0: no carrier'' \<rparr>,
         calls = [Acquire_Call dhcp_eth0 (ni_addrconf_request_new NI_ADDRCONF_DHCP AF_INET)] \<rparr>
   \<and> wicked_dbus_dhcp4_acquire_svc dict_request (\<lambda>d r. 0) (\<lambda>rv. ''no carrier'') dhcp_eth0
       [DBUS_DICT []]
     = \<lparr> ret = True, error = None,
         calls = [Acquire_Call dhcp_eth0 (ni_addrconf_request_new NI_ADDRCONF_DHCP AF_INET)] \<rparr>"
  using acquire_svc_outcomes[of "[]" dict_request "\<lambda>d r. 0" "\<lambda>rv. ''no carrier''" dhcp_eth0]
    acquire_svc_outcomes[of "[DBUS_STRING ''x'']" dict_request "\<lambda>d r. 0" "\<lambda>rv. ''no carrier''"
      dhcp_eth0 "DBUS_STRING ''x''" "[]"
      "Some \<lparr> e_name = DBUS_ERROR_INVALID_ARGS,
           e_message = ''Cannot extract addrconf request from property dict'' \<rparr>"]
    acquire_svc_outcomes[of "[DBUS_DICT []]" dict_request "\<lambda>d r. - 1" "\<lambda>rv. ''no carrier''"
      dhcp_eth0 "DBUS_DICT []" "[]" _ "ni_addrconf_request_new NI_ADDRCONF_DHCP AF_INET"]
    acquire_svc_outcomes[of "[DBUS_DICT []]" dict_request "\<lambda>d r. 0" "\<lambda>rv. ''no carrier''"
      dhcp_eth0 "DBUS_DICT []" "[]" _ "ni_addrconf_request_new NI_ADDRCONF_DHCP AF_INET"]
  by (simp add: dict_request_def dhcp_eth0_def ni_addrconf_request_new_def)

text \<open>
  The claim as stated fails on a call with one argument that is not a dictionary,
  for a device on which negotiation would start: the method returns false, the
  error is not the Failed error and \<^verbatim>\<open>ni_dhcp_acquire\<close> is not called.
\<close>

theorem acquire_svc_malformed_counterexample:
  "ret (wicked_dbus_dhcp4_acquire_svc dict_request (\<lambda>d r. 0) (\<lambda>rv. ''no carrier'') dhcp_eth0
          [DBUS_STRING ''x'']) = False
   \<and> map_option e_name (error (wicked_dbus_dhcp4_acquire_svc dict_request (\<lambda>d r. 0)
          (\<lambda>rv. ''no carrier'') dhcp_eth0 [DBUS_STRING ''x''])) \<noteq> Some DBUS_ERROR_FAILED
   \<and> calls (wicked_dbus_dhcp4_acquire_svc dict_request (\<lambda>d r. 0) (\<lambda>rv. ''no carrier'') dhcp_eth0
          [DBUS_STRING ''x'']) = []"
  by (simp add: wicked_dbus_dhcp4_acquire_svc_def dict_request_def Let_def)


section \<open>The drop method (C9)\<close>

text \<open>
  C9, as amended.  \<^verbatim>\<open>drop\<close> reads its argument only when it is called with exactly
  one.  Called with exactly one argument that is not a byte array of exactly 16
  bytes, it fails with the InvalidArgs error and does not call
  \<^verbatim>\<open>ni_dhcp_release\<close>.  Called with exactly one argument that is a byte array of 16
  bytes, it passes these bytes to \<^verbatim>\<open>ni_dhcp_release\<close>.  Called with no argument, or
  with more than one, it passes the identifier of 16 zero bytes.  In both cases,
  when \<^verbatim>\<open>ni_dhcp_release\<close> returns a negative number \<^verbatim>\<open>drop\<close> fails with the Failed
  error, whose message is made of the device name and the reason, and otherwise
  it returns true without an error.
\<close>

theorem drop_svc_outcomes:
  "(argv = [arg] \<and> (\<forall>bytes. arg = DBUS_BYTE_ARRAY bytes \<longrightarrow> length bytes \<noteq> 16) \<longrightarrow>
      wicked_dbus_dhcp4_drop_svc release strerror dev argv
        = \<lparr> ret = False,
            error = Some \<lparr> e_name = DBUS_ERROR_INVALID_ARGS, e_message = ''bad uuid argument'' \<rparr>,
            calls = [] \<rparr>) \<and>
   (argv = [DBUS_BYTE_ARRAY uuid] \<and> length uuid = 16 \<and> release dev uuid < 0 \<longrightarrow>
      wicked_dbus_dhcp4_drop_svc release strerror dev argv
        = \<lparr> ret = False,
            error = Some \<lparr> e_name = DBUS_ERROR_FAILED,
              e_message = ''Unable to drop DHCP lease for interface '' @ ifname dev @ '': ''
                            @ strerror (release dev uuid) \<rparr>,
            calls = [Release_Call dev uuid] \<rparr>) \<and>
   (argv = [DBUS_BYTE_ARRAY uuid] \<and> length uuid = 16 \<and> \<not> release dev uuid < 0 \<longrightarrow>
      wicked_dbus_dhcp4_drop_svc release strerror dev argv
        = \<lparr> ret = True, error = None, calls = [Release_Call dev uuid] \<rparr>) \<and>
   (length argv \<noteq> 1 \<and> release dev (replicate 16 0) < 0 \<longrightarrow>
      wicked_dbus_dhcp4_drop_svc release strerror dev argv
        = \<lparr> ret = False,
            error = Some \<lparr> e_name = DBUS_ERROR_FAILED,
              e_message = ''Unable to drop DHCP lease for interface '' @ ifname dev @ '': ''
                            @ strerror (release dev (replicate 16 0)) \<rparr>,
            calls = [Release_Call dev (replicate 16 0)] \<rparr>) \<and>
   (length argv \<noteq> 1 \<and> \<not> release dev (replicate 16 0) < 0 \<longrightarrow>
      wicked_dbus_dhcp4_drop_svc release strerror dev argv
        = \<lparr> ret = True, error = None, calls = [Release_Call dev (replicate 16 0)] \<rparr>)"
proof -
  have a: "argv = [arg] \<and> (\<forall>bytes. arg = DBUS_BYTE_ARRAY bytes \<longrightarrow> length bytes \<noteq> 16) \<Longrightarrow>
      wicked_dbus_dhcp4_drop_svc release strerror dev argv
        = \<lparr> ret = False,
            error = Some \<lparr> e_name = DBUS_ERROR_INVALID_ARGS, e_message = ''bad uuid argument'' \<rparr>,
            calls = [] \<rparr>"
    by (cases arg)
       (auto simp: wicked_dbus_dhcp4_drop_svc_def ni_dbus_variant_get_byte_array_minmax_def)
  have b: "argv = [DBUS_BYTE_ARRAY uuid] \<and> length uuid = 16 \<Longrightarrow>
      wicked_dbus_dhcp4_drop_svc release strerror dev argv
        = (if release dev uuid < 0
           then \<lparr> ret = False,
                  error = Some \<lparr> e_name = DBUS_ERROR_FAILED,
                    e_message = ''Unable to drop DHCP lease for interface '' @ ifname dev @ '': ''
                                  @ strerror (release dev uuid) \<rparr>,
                  calls = [Release_Call dev uuid] \<rparr>
           else \<lparr> ret = True, error = None, calls = [Release_Call dev uuid] \<rparr>)"
    by (simp add: wicked_dbus_dhcp4_drop_svc_def ni_dbus_variant_get_byte_array_minmax_def Let_def)
  have c: "length argv \<noteq> 1 \<Longrightarrow>
      wicked_dbus_dhcp4_drop_svc release strerror dev argv
        = (if release dev (replicate 16 0) < 0
           then \<lparr> ret = False,
                  error = Some \<lparr> e_name = DBUS_ERROR_FAILED,
                    e_message = ''Unable to drop DHCP lease for interface '' @ ifname dev @ '': ''
                                  @ strerror (release dev (replicate 16 0)) \<rparr>,
                  calls = [Release_Call dev (replicate 16 0)] \<rparr>
           else \<lparr> ret = True, error = None, calls = [Release_Call dev (replicate 16 0)] \<rparr>)"
    by (auto simp: wicked_dbus_dhcp4_drop_svc_def zero_uuid_def Let_def split: list.splits)
  from a b c show ?thesis by simp
qed

theorem drop_svc_outcomes_witness:
  "wicked_dbus_dhcp4_drop_svc (\<lambda>d u. if u = uuid16 then - 1 else 0) (\<lambda>rv. ''no lease'') dhcp_eth0
       [DBUS_BYTE_ARRAY [1, 2, 3]]
     = \<lparr> ret = False,
         error = Some \<lparr> e_name = DBUS_ERROR_INVALID_ARGS, e_message = ''bad uuid argument'' \<rparr>,
         calls = [] \<rparr>
   \<and> wicked_dbus_dhcp4_drop_svc (\<lambda>d u. if u = uuid16 then - 1 else 0) (\<lambda>rv. ''no lease'') dhcp_eth0
       [DBUS_BYTE_ARRAY uuid16]
     = \<lparr> ret = False,
         error = Some \<lparr> e_name = DBUS_ERROR_FAILED,
           e_message = ''Unable to drop DHCP lease for interface eth0: no lease'' \<rparr>,
         calls = [Release_Call dhcp_eth0 uuid16] \<rparr>
   \<and> wicked_dbus_dhcp4_drop_svc (\<lambda>d u. if u = uuid16 then - 1 else 0) (\<lambda>rv. ''no lease'') dhcp_eth0
       [DBUS_BYTE_ARRAY (replicate 16 7)]
     = \<lparr> ret = True, error = None, calls = [Release_Call dhcp_eth0 (replicate 16 7)] \<rparr>
   \<and> wicked_dbus_dhcp4_drop_svc (\<lambda>d u. - 1) (\<lambda>rv. ''no lease'') dhcp_eth0 []
     = \<lparr> ret = False,
         error = Some \<lparr> e_name = DBUS_ERROR_FAILED,
           e_message = ''Unable to drop DHCP lease for interface eth0: no lease'' \<rparr>,
         calls = [Release_Call dhcp_eth0 (replicate 16 0)] \<rparr>
   \<and> wicked_dbus_dhcp4_drop_svc (\<lambda>d u. if u = uuid16 then - 1 else 0) (\<lambda>rv. ''no lease'') dhcp_eth0 []
     = \<lparr> ret = True, error = None, calls = [Release_Call dhcp_eth0 (replicate 16 0)] \<rparr>"
proof -
  let ?rel = "\<lambda>(d::ni_dhcp_device) (u::ni_uuid). if u = uuid16 then - 1 else (0::int)"
  let ?err = "\<lambda>rv::int. ''no lease''"
  have h1: "[DBUS_BYTE_ARRAY [1, 2, 3]] = [DBUS_BYTE_ARRAY [1, 2, 3]] \<and>
    (\<forall>bytes. DBUS_BYTE_ARRAY [1, 2, 3] = DBUS_BYTE_ARRAY bytes \<longrightarrow> length bytes \<noteq> 16)"
    by auto
  have h2: "length uuid16 = 16" "?rel dhcp_eth0 uuid16 < 0"
    "length (replicate 16 (7::8 word)) = 16" "\<not> ?rel dhcp_eth0 (replicate 16 7) < 0"
    "\<not> ?rel dhcp_eth0 (replicate 16 0) < 0"
    by (simp_all add: uuid16_def eval_nat_numeral)
  from drop_svc_outcomes[where argv = "[DBUS_BYTE_ARRAY [1, 2, 3]]"
         and arg = "DBUS_BYTE_ARRAY [1, 2, 3]" and release = ?rel and dev = dhcp_eth0
         and strerror = ?err] h1
  have a: "wicked_dbus_dhcp4_drop_svc ?rel ?err dhcp_eth0 [DBUS_BYTE_ARRAY [1, 2, 3]]
     = \<lparr> ret = False,
         error = Some \<lparr> e_name = DBUS_ERROR_INVALID_ARGS, e_message = ''bad uuid argument'' \<rparr>,
         calls = [] \<rparr>" by blast
  from drop_svc_outcomes[where argv = "[DBUS_BYTE_ARRAY uuid16]" and uuid = uuid16
         and release = ?rel and dev = dhcp_eth0 and strerror = ?err] h2(1,2)
  have b: "wicked_dbus_dhcp4_drop_svc ?rel ?err dhcp_eth0 [DBUS_BYTE_ARRAY uuid16]
     = \<lparr> ret = False,
         error = Some \<lparr> e_name = DBUS_ERROR_FAILED,
           e_message = ''Unable to drop DHCP lease for interface '' @ ifname dhcp_eth0 @ '': ''
                            @ ?err (?rel dhcp_eth0 uuid16) \<rparr>,
         calls = [Release_Call dhcp_eth0 uuid16] \<rparr>" by blast
  from drop_svc_outcomes[where argv = "[DBUS_BYTE_ARRAY (replicate 16 7)]"
         and uuid = "replicate 16 7" and release = ?rel and dev = dhcp_eth0
         and strerror = ?err] h2(3,4)
  have c: "wicked_dbus_dhcp4_drop_svc ?rel ?err dhcp_eth0 [DBUS_BYTE_ARRAY (replicate 16 7)]
     = \<lparr> ret = True, error = None, calls = [Release_Call dhcp_eth0 (replicate 16 7)] \<rparr>"
    by blast
  from drop_svc_outcomes[where argv = "[]" and release = "\<lambda>d u. - 1" and dev = dhcp_eth0
         and strerror = ?err]
  have d: "wicked_dbus_dhcp4_drop_svc (\<lambda>d u. - 1) ?err dhcp_eth0 []
     = \<lparr> ret = False,
         error = Some \<lparr> e_name = DBUS_ERROR_FAILED,
           e_message = ''Unable to drop DHCP lease for interface '' @ ifname dhcp_eth0 @ '': ''
                            @ ''no lease'' \<rparr>,
         calls = [Release_Call dhcp_eth0 (replicate 16 0)] \<rparr>" by simp
  from drop_svc_outcomes[where argv = "[]" and release = ?rel and dev = dhcp_eth0
         and strerror = ?err] h2(5)
  have e: "wicked_dbus_dhcp4_drop_svc ?rel ?err dhcp_eth0 []
     = \<lparr> ret = True, error = None, calls = [Release_Call dhcp_eth0 (replicate 16 0)] \<rparr>"
    by simp
  show ?thesis using a b c d e by (simp add: dhcp_eth0_def)
qed

text \<open>
  The claim as stated fails on a call with two arguments whose first is a byte
  array of 3 bytes: an identifier is present and is not 16 bytes long, yet the
  method does not fail with InvalidArgs; it passes the zero identifier to
  \<^verbatim>\<open>ni_dhcp_release\<close> and returns true.
\<close>

theorem drop_svc_two_arguments_counterexample:
  "wicked_dbus_dhcp4_drop_svc (\<lambda>d u. 0) (\<lambda>rv. ''no lease'') dhcp_eth0
       [DBUS_BYTE_ARRAY [1, 2, 3], DBUS_STRING ''x'']
     = \<lparr> ret = True, error = None, calls = [Release_Call dhcp_eth0 (replicate 16 0)] \<rparr>"
  by (simp add: wicked_dbus_dhcp4_drop_svc_def zero_uuid_def Let_def)

section \<open>The result of a pass (C10)\<close>

text \<open>
  C10.  The claim: \<^verbatim>\<open>ni_system_update_all\<close> returns true on every invocation, and
  \<^verbatim>\<open>ni_system_update_from_lease\<close> then returns 0.  A pass that runs to its
  \<^verbatim>\<open>return\<close> does return true, whatever the scripts report (lemmas
  \<open>returned_pass_is_true\<close> and \<open>returned_from_lease_is_0\<close>).  But with the
  executor of the source, after a first pass over the DHCP and the firmware lease
  (which returns true), the pass that follows the withdrawal of both leases does
  not return: its purge loop reads the node it has just freed.  The same holds for
  \<^verbatim>\<open>ni_system_update_from_lease\<close> called at that point.
\<close>

theorem update_all_withdrawn_lease_does_not_return:
  "pass_result (ni_system_update_all ni_system_updater_run hostname_config [eth0] state_zero) = Inr True
   \<and> pass_result (ni_system_update_all ni_system_updater_run hostname_config [eth0_down]
        (pass_state (ni_system_update_all ni_system_updater_run hostname_config [eth0] state_zero))) = Inl Use_After_Free
   \<and> pass_result (ni_system_update_from_lease ni_system_updater_run hostname_config [eth0_down]
        firmware_lease (pass_state (ni_system_update_all ni_system_updater_run hostname_config [eth0] state_zero))) = Inl Use_After_Free"
  by (simp add: update_from_lease_alt src_pass1 src_pass_withdrawn)

end
